theory Spec2Isabelle
  imports Complex_Main "HOL-Library.AList"
begin

section \<open>Strings and the key helpers of the VMC listener\<close>

text \<open>
  A Go string is a sequence of bytes, here a \<^typ>\<open>string\<close>. The regular expressions of
  the source only mention the ASCII classes \<open>[a-z]\<close>, \<open>[A-Z]\<close> and \<open>[0-9]\<close>, and
  \<open>strings.ToLower\<close> is modelled on ASCII text: on a string that is not pure ASCII Go lowercases
  whole runes through its Unicode tables, which this development does not contain. Statements
  about what the key helpers make of an arbitrary key therefore carry the premise \<open>isASCII\<close>.
\<close>

datatype error =
    RegexpCompileError
  | TypeAssertError
  | UnsupportedValueError
  | UnmarshalTypeError
  | IndexOutOfRangePanic
  | SliceBoundsPanic
  | NilDereferencePanic
  | SendOnClosedChannelPanic
  | CloseOfClosedChannelPanic
  | CloseOfNilChannelPanic
  | Blocked
  | ReadError

definition isUpper :: "char \<Rightarrow> bool" where
  "isUpper c \<longleftrightarrow> 65 \<le> (of_char c :: nat) \<and> (of_char c :: nat) \<le> 90"

definition isLower :: "char \<Rightarrow> bool" where
  "isLower c \<longleftrightarrow> 97 \<le> (of_char c :: nat) \<and> (of_char c :: nat) \<le> 122"

definition isDigit :: "char \<Rightarrow> bool" where
  "isDigit c \<longleftrightarrow> 48 \<le> (of_char c :: nat) \<and> (of_char c :: nat) \<le> 57"

definition isASCII :: "string \<Rightarrow> bool" where
  "isASCII s = list_all (\<lambda>c. (of_char c :: nat) < 128) s"

text \<open>\<open>strings.ToLower\<close> on ASCII: every byte in \<open>A..Z\<close> is moved by \<open>'a' - 'A' = 32\<close>.\<close>

definition toLowerByte :: "char \<Rightarrow> char" where
  "toLowerByte c = (if isUpper c then char_of (of_char c + 32 :: nat) else c)"

definition ToLower :: "string \<Rightarrow> string" where
  "ToLower s = map toLowerByte s"

definition HasSuffix :: "string \<Rightarrow> string \<Rightarrow> bool" where
  "HasSuffix s suffix \<longleftrightarrow>
     length suffix \<le> length s \<and> drop (length s - length suffix) s = suffix"

text \<open>
  \<open>matchAllLowerUpper.ReplaceAllString(str, "${1}_${2}")\<close> for the pattern
  \<open>([a-z])([A-Z])\<close>: the matches are found from left to right and do not overlap; a match
  takes two bytes, and the search goes on behind it.
\<close>

fun matchAllLowerUpper :: "string \<Rightarrow> string" where
  "matchAllLowerUpper (a # b # rest) =
     (if isLower a \<and> isUpper b then a # CHR ''_'' # b # matchAllLowerUpper rest
      else a # matchAllLowerUpper (b # rest))"
| "matchAllLowerUpper [a] = [a]"
| "matchAllLowerUpper [] = []"

text \<open>
  \<open>matchEndingL\<close> is \<open>_(l)$\<close> and \<open>matchEndingR\<close> is \<open>_r$\<close>; without the multi-line flag
  \<open>$\<close> is the end of the text, so each can match once, at the end.
\<close>

definition matchEndingL :: "string \<Rightarrow> string" where
  "matchEndingL s = (if HasSuffix s ''_l'' then take (length s - 2) s @ ''_left'' else s)"

definition matchEndingR :: "string \<Rightarrow> string" where
  "matchEndingR s = (if HasSuffix s ''_r'' then take (length s - 2) s @ ''_right'' else s)"

text \<open>
  \<open>normalizeVMCKey\<close>. The three patterns are constants that compile, so the error returns
  behind \<open>regexp.Compile\<close> are never taken and the result is always \<open>Inr\<close>.
\<close>

definition normalizeVMCKey :: "string \<Rightarrow> error + string" where
  "normalizeVMCKey str =
     (let str = matchAllLowerUpper str;
          str = ToLower str;
          str = matchEndingL str;
          str = matchEndingR str
      in Inr str)"

text \<open>
  \<open>matchFirstCap\<close> is \<open>(.)([A-Z][a-z]+)\<close>: any byte but a newline, an upper-case letter and
  the longest run of lower-case letters behind it, at least one.
\<close>

function matchFirstCap :: "string \<Rightarrow> string" where
  "matchFirstCap (c # u # l # rest) =
     (if c \<noteq> CHR 0x0A \<and> isUpper u \<and> isLower l
      then c # CHR ''_'' # u # l # takeWhile isLower rest @ matchFirstCap (dropWhile isLower rest)
      else c # matchFirstCap (u # l # rest))"
| "matchFirstCap [c, u] = [c, u]"
| "matchFirstCap [c] = [c]"
| "matchFirstCap [] = []"
  by pat_completeness auto
termination
  by (relation "measure length")
    (auto simp: less_Suc_eq_le intro: le_trans [OF length_dropWhile_le])

text \<open>\<open>matchAllCap\<close> is \<open>([a-z0-9])([A-Z])\<close>.\<close>

fun matchAllCap :: "string \<Rightarrow> string" where
  "matchAllCap (a # b # rest) =
     (if (isLower a \<or> isDigit a) \<and> isUpper b then a # CHR ''_'' # b # matchAllCap rest
      else a # matchAllCap (b # rest))"
| "matchAllCap [a] = [a]"
| "matchAllCap [] = []"

definition camelToSnake :: "string \<Rightarrow> error + string" where
  "camelToSnake str =
     (let snake = matchFirstCap str;
          snake = matchAllCap snake
      in Inr (ToLower snake))"

subsection \<open>The normalization as the specification words it\<close>

text \<open>
  Written from the specification, to be compared with \<open>normalizeVMCKey\<close>: a separator goes
  before each upper-case letter that follows a lower-case letter (\<open>prev\<close> is the byte before
  the rest of the key, if any), the whole string is lowercased, and a trailing \<open>_l\<close> becomes
  \<open>_left\<close>, a trailing \<open>_r\<close> becomes \<open>_right\<close>.
\<close>

fun spec_insert_separators :: "char option \<Rightarrow> string \<Rightarrow> string" where
  "spec_insert_separators prev [] = []"
| "spec_insert_separators prev (c # cs) =
     (if isUpper c \<and> (case prev of None \<Rightarrow> False | Some p \<Rightarrow> isLower p)
      then CHR ''_'' # c # spec_insert_separators (Some c) cs
      else c # spec_insert_separators (Some c) cs)"

definition spec_normalize :: "string \<Rightarrow> string" where
  "spec_normalize key =
     (let s = ToLower (spec_insert_separators None key)
      in if HasSuffix s ''_l'' then take (length s - 2) s @ ''_left''
         else if HasSuffix s ''_r'' then take (length s - 2) s @ ''_right''
         else s)"

section \<open>The data model\<close>

text \<open>
  A \<open>float32\<close> is a finite value (the rational it denotes), an infinity or NaN. The listener
  only compares such values with 0 and 1 and passes them through \<open>encoding/json\<close>.
\<close>

datatype float32 = Finite rat | PosInf | NegInf | NaN

fun f32_less :: "float32 \<Rightarrow> float32 \<Rightarrow> bool" where
  "f32_less NaN b = False"
| "f32_less a NaN = False"
| "f32_less (Finite a) (Finite b) = (a < b)"
| "f32_less (Finite a) PosInf = True"
| "f32_less (Finite a) NegInf = False"
| "f32_less NegInf NegInf = False"
| "f32_less NegInf b = True"
| "f32_less PosInf b = False"

record objPosition =
  pos_x :: float32
  pos_y :: float32
  pos_z :: float32

record objQuaternionRotation =
  quat_x :: float32
  quat_y :: float32
  quat_z :: float32
  quat_w :: float32

record objSphericalRotation =
  AzimuthAngle :: float32
  PolarAngle :: float32

record boneRotation =
  Quaternion :: objQuaternionRotation
  Spherical :: objSphericalRotation

record vrmBone =
  Position :: objPosition
  Rotation :: boneRotation

record cameraType =
  camPosition :: objPosition
  camTarget :: objPosition

text \<open>
  \<open>vrmBones\<close> and \<open>vrmFaceBlendShapes\<close> are structs of 56 fields of type \<open>vrmBone\<close> and of
  52 fields of type \<open>float32\<close>: a value gives every field its content.
\<close>

datatype bone_field =
    Hips | LeftUpperLeg | RightUpperLeg | LeftLowerLeg | RightLowerLeg | LeftFoot |
    RightFoot | Spine | Chest | UpperChest | Neck | Head | LeftShoulder | RightShoulder |
    LeftUpperArm | RightUpperArm | LeftLowerArm | RightLowerArm | LeftHand | RightHand |
    LeftToes | RightToes | LeftEye | RightEye | Jaw | LeftThumbProximal |
    LeftThumbIntermediate | LeftThumbDistal | LeftIndexProximal | LeftIndexIntermediate |
    LeftIndexDistal | LeftMiddleProximal | LeftMiddleIntermediate | LeftMiddleDistal |
    LeftRingProximal | LeftRingIntermediate | LeftRingDistal | LeftLittleProximal |
    LeftLittleIntermediate | LeftLittleDistal | RightThumbProximal |
    RightThumbIntermediate | RightThumbDistal | RightIndexProximal |
    RightIndexIntermediate | RightIndexDistal | RightMiddleProximal |
    RightMiddleIntermediate | RightMiddleDistal | RightRingProximal |
    RightRingIntermediate | RightRingDistal | RightLittleProximal |
    RightLittleIntermediate | RightLittleDistal | LastBone

datatype face_field =
    EyeBlinkLeft | EyeLookDownLeft | EyeLookInLeft | EyeLookOutLeft | EyeLookUpLeft |
    EyeSquintLeft | EyeWideLeft | EyeBlinkRight | EyeLookDownRight | EyeLookInRight |
    EyeLookOutRight | EyeLookUpRight | EyeSquintRight | EyeWideRight | JawForward |
    JawLeft | JawRight | JawOpen | MouthClose | MouthFunnel | MouthPucker | MouthLeft |
    MouthRight | MouthSmileLeft | MouthSmileRight | MouthFrownLeft | MouthFrownRight |
    MouthDimpleLeft | MouthDimpleRight | MouthStretchLeft | MouthStretchRight |
    MouthRollLower | MouthRollUpper | MouthShrugLower | MouthShrugUpper | MouthPressLeft |
    MouthPressRight | MouthLowerDownLeft | MouthLowerDownRight | MouthUpperUpLeft |
    MouthUpperUpRight | BrowDownLeft | BrowDownRight | BrowInnerUp | BrowOuterUpLeft |
    BrowOuterUpRight | CheekPuff | CheekSquintLeft | CheekSquintRight | NoseSneerLeft |
    NoseSneerRight | TongueOut

type_synonym vrmBones = "bone_field \<Rightarrow> vrmBone"

type_synonym vrmFaceBlendShapes = "face_field \<Rightarrow> float32"

record vrmBlendShapes =
  DynamicBlendShapes :: "string \<rightharpoonup> float32"
  FaceBlendShapes :: vrmFaceBlendShapes

record vrmType =
  Bones :: vrmBones
  BlendShapes :: vrmBlendShapes

text \<open>The JSON name of every field, in the order of the declaration.\<close>

definition vrmBones_fields :: "(string \<times> bone_field) list" where
  "vrmBones_fields =
    [
     (''hips'', Hips), (''left_upper_leg'', LeftUpperLeg),
     (''right_upper_leg'', RightUpperLeg), (''left_lower_leg'', LeftLowerLeg),
     (''right_lower_leg'', RightLowerLeg), (''left_foot'', LeftFoot),
     (''right_foot'', RightFoot), (''spine'', Spine), (''chest'', Chest),
     (''upper_chest'', UpperChest), (''neck'', Neck), (''head'', Head),
     (''left_shoulder'', LeftShoulder), (''right_shoulder'', RightShoulder),
     (''left_upper_arm'', LeftUpperArm), (''right_upper_arm'', RightUpperArm),
     (''left_lower_arm'', LeftLowerArm), (''right_lower_arm'', RightLowerArm),
     (''left_hand'', LeftHand), (''right_hand'', RightHand), (''left_toes'', LeftToes),
     (''right_toes'', RightToes), (''left_eye'', LeftEye), (''right_eye'', RightEye),
     (''jaw'', Jaw), (''left_thumb_proximal'', LeftThumbProximal),
     (''left_thumb_intermediate'', LeftThumbIntermediate),
     (''left_thumb_distal'', LeftThumbDistal),
     (''left_index_proximal'', LeftIndexProximal),
     (''left_index_intermediate'', LeftIndexIntermediate),
     (''left_index_distal'', LeftIndexDistal),
     (''left_middle_proximal'', LeftMiddleProximal),
     (''left_middle_intermediate'', LeftMiddleIntermediate),
     (''left_middle_distal'', LeftMiddleDistal),
     (''left_ring_proximal'', LeftRingProximal),
     (''left_ring_intermediate'', LeftRingIntermediate),
     (''left_ring_distal'', LeftRingDistal),
     (''left_little_proximal'', LeftLittleProximal),
     (''left_little_intermediate'', LeftLittleIntermediate),
     (''left_little_distal'', LeftLittleDistal),
     (''right_thumb_proximal'', RightThumbProximal),
     (''right_thumb_intermediate'', RightThumbIntermediate),
     (''right_thumb_distal'', RightThumbDistal),
     (''right_index_proximal'', RightIndexProximal),
     (''right_index_intermediate'', RightIndexIntermediate),
     (''right_index_distal'', RightIndexDistal),
     (''right_middle_proximal'', RightMiddleProximal),
     (''right_middle_intermediate'', RightMiddleIntermediate),
     (''right_middle_distal'', RightMiddleDistal),
     (''right_ring_proximal'', RightRingProximal),
     (''right_ring_intermediate'', RightRingIntermediate),
     (''right_ring_distal'', RightRingDistal),
     (''right_little_proximal'', RightLittleProximal),
     (''right_little_intermediate'', RightLittleIntermediate),
     (''right_little_distal'', RightLittleDistal), (''last_bone'', LastBone)]"

definition vrmFaceBlendShapes_fields :: "(string \<times> face_field) list" where
  "vrmFaceBlendShapes_fields =
    [
     (''EyeBlinkLeft'', EyeBlinkLeft), (''EyeLookDownLeft'', EyeLookDownLeft),
     (''EyeLookInLeft'', EyeLookInLeft), (''EyeLookOutLeft'', EyeLookOutLeft),
     (''EyeLookUpLeft'', EyeLookUpLeft), (''EyeSquintLeft'', EyeSquintLeft),
     (''EyeWideLeft'', EyeWideLeft), (''EyeBlinkRight'', EyeBlinkRight),
     (''EyeLookDownRight'', EyeLookDownRight), (''EyeLookInRight'', EyeLookInRight),
     (''EyeLookOutRight'', EyeLookOutRight), (''EyeLookUpRight'', EyeLookUpRight),
     (''EyeSquintRight'', EyeSquintRight), (''EyeWideRight'', EyeWideRight),
     (''JawForward'', JawForward), (''JawLeft'', JawLeft), (''JawRight'', JawRight),
     (''JawOpen'', JawOpen), (''MouthClose'', MouthClose), (''MouthFunnel'', MouthFunnel),
     (''MouthPucker'', MouthPucker), (''MouthLeft'', MouthLeft),
     (''MouthRight'', MouthRight), (''MouthSmileLeft'', MouthSmileLeft),
     (''MouthSmileRight'', MouthSmileRight), (''MouthFrownLeft'', MouthFrownLeft),
     (''MouthFrownRight'', MouthFrownRight), (''MouthDimpleLeft'', MouthDimpleLeft),
     (''MouthDimpleRight'', MouthDimpleRight), (''MouthStretchLeft'', MouthStretchLeft),
     (''MouthStretchRight'', MouthStretchRight), (''MouthRollLower'', MouthRollLower),
     (''MouthRollUpper'', MouthRollUpper), (''MouthShrugLower'', MouthShrugLower),
     (''MouthShrugUpper'', MouthShrugUpper), (''MouthPressLeft'', MouthPressLeft),
     (''MouthPressRight'', MouthPressRight), (''MouthLowerDownLeft'', MouthLowerDownLeft),
     (''MouthLowerDownRight'', MouthLowerDownRight),
     (''MouthUpperUpLeft'', MouthUpperUpLeft), (''MouthUpperUpRight'', MouthUpperUpRight),
     (''BrowDownLeft'', BrowDownLeft), (''BrowDownRight'', BrowDownRight),
     (''BrowInnerUp'', BrowInnerUp), (''BrowOuterUpLeft'', BrowOuterUpLeft),
     (''BrowOuterUpRight'', BrowOuterUpRight), (''CheekPuff'', CheekPuff),
     (''CheekSquintLeft'', CheekSquintLeft), (''CheekSquintRight'', CheekSquintRight),
     (''NoseSneerLeft'', NoseSneerLeft), (''NoseSneerRight'', NoseSneerRight),
     (''TongueOut'', TongueOut)]"

text \<open>
  The key vocabularies: the Go field names of \<open>vrmBones\<close> (the names a VMC sender uses), its
  JSON names, and the JSON names of \<open>vrmFaceBlendShapes\<close>.
\<close>

definition vrmBonesNames :: "string list" where
  "vrmBonesNames =
    [
     ''Hips'', ''LeftUpperLeg'', ''RightUpperLeg'', ''LeftLowerLeg'', ''RightLowerLeg'',
     ''LeftFoot'', ''RightFoot'', ''Spine'', ''Chest'', ''UpperChest'', ''Neck'', ''Head'',
     ''LeftShoulder'', ''RightShoulder'', ''LeftUpperArm'', ''RightUpperArm'',
     ''LeftLowerArm'', ''RightLowerArm'', ''LeftHand'', ''RightHand'', ''LeftToes'',
     ''RightToes'', ''LeftEye'', ''RightEye'', ''Jaw'', ''LeftThumbProximal'',
     ''LeftThumbIntermediate'', ''LeftThumbDistal'', ''LeftIndexProximal'',
     ''LeftIndexIntermediate'', ''LeftIndexDistal'', ''LeftMiddleProximal'',
     ''LeftMiddleIntermediate'', ''LeftMiddleDistal'', ''LeftRingProximal'',
     ''LeftRingIntermediate'', ''LeftRingDistal'', ''LeftLittleProximal'',
     ''LeftLittleIntermediate'', ''LeftLittleDistal'', ''RightThumbProximal'',
     ''RightThumbIntermediate'', ''RightThumbDistal'', ''RightIndexProximal'',
     ''RightIndexIntermediate'', ''RightIndexDistal'', ''RightMiddleProximal'',
     ''RightMiddleIntermediate'', ''RightMiddleDistal'', ''RightRingProximal'',
     ''RightRingIntermediate'', ''RightRingDistal'', ''RightLittleProximal'',
     ''RightLittleIntermediate'', ''RightLittleDistal'', ''LastBone'']"

definition keyVocabulary :: "string list" where
  "keyVocabulary = vrmBonesNames @ map fst vrmBones_fields @ map fst vrmFaceBlendShapes_fields"

text \<open>The zero values Go gives to a variable that is declared without a value.\<close>

definition zero_objPosition :: objPosition where
  "zero_objPosition = \<lparr>pos_x = Finite 0, pos_y = Finite 0, pos_z = Finite 0\<rparr>"

definition zero_boneRotation :: boneRotation where
  "zero_boneRotation =
     \<lparr>Quaternion = \<lparr>quat_x = Finite 0, quat_y = Finite 0, quat_z = Finite 0, quat_w = Finite 0\<rparr>,
      Spherical = \<lparr>AzimuthAngle = Finite 0, PolarAngle = Finite 0\<rparr>\<rparr>"

definition zero_vrmBone :: vrmBone where
  "zero_vrmBone = \<lparr>Position = zero_objPosition, Rotation = zero_boneRotation\<rparr>"

definition zero_vrmType :: vrmType where
  "zero_vrmType =
     \<lparr>Bones = (\<lambda>b. zero_vrmBone),
      BlendShapes = \<lparr>DynamicBlendShapes = Map.empty, FaceBlendShapes = (\<lambda>f. Finite 0)\<rparr>\<rparr>"

definition zero_cameraType :: cameraType where
  "zero_cameraType = \<lparr>camPosition = zero_objPosition, camTarget = zero_objPosition\<rparr>"

section \<open>What the listener uses of \<open>encoding/json\<close>\<close>

text \<open>
  A JSON text, parsed. A number carries the \<open>float32\<close> that \<open>strconv.ParseFloat\<close> reads
  from its literal: a finite value, or an infinity when the literal is out of range.
\<close>

datatype json =
    JNull
  | JBool bool
  | JNumber float32
  | JString string
  | JArray "json list"
  | JObject "(string \<times> json) list"

text \<open>
  \<open>json.Marshal\<close>: a float that is NaN or infinite is an \<open>UnsupportedValueError\<close>; a finite
  \<open>float32\<close> is written with the shortest literal that reads back as the same value. A
  struct is an object of all its fields, in the order of the declaration; \<open>omitempty\<close> on a
  field of struct type never omits it.
\<close>

definition marshal_float32 :: "float32 \<Rightarrow> error + json" where
  "marshal_float32 v = (case v of Finite r \<Rightarrow> Inr (JNumber v) | _ \<Rightarrow> Inl UnsupportedValueError)"

fun marshal_members :: "(string \<times> (error + json)) list \<Rightarrow> error + (string \<times> json) list" where
  "marshal_members [] = Inr []"
| "marshal_members ((k, Inl e) # rest) = Inl e"
| "marshal_members ((k, Inr j) # rest) =
     (case marshal_members rest of Inl e \<Rightarrow> Inl e | Inr js \<Rightarrow> Inr ((k, j) # js))"

definition marshal_object :: "(string \<times> (error + json)) list \<Rightarrow> error + json" where
  "marshal_object members =
     (case marshal_members members of Inl e \<Rightarrow> Inl e | Inr js \<Rightarrow> Inr (JObject js))"

definition marshal_objPosition :: "objPosition \<Rightarrow> error + json" where
  "marshal_objPosition p =
     marshal_object
       [(''x'', marshal_float32 (pos_x p)), (''y'', marshal_float32 (pos_y p)),
        (''z'', marshal_float32 (pos_z p))]"

definition marshal_objQuaternionRotation :: "objQuaternionRotation \<Rightarrow> error + json" where
  "marshal_objQuaternionRotation q =
     marshal_object
       [(''x'', marshal_float32 (quat_x q)), (''y'', marshal_float32 (quat_y q)),
        (''z'', marshal_float32 (quat_z q)), (''w'', marshal_float32 (quat_w q))]"

definition marshal_objSphericalRotation :: "objSphericalRotation \<Rightarrow> error + json" where
  "marshal_objSphericalRotation s =
     marshal_object
       [(''azimuth'', marshal_float32 (AzimuthAngle s)),
        (''polar'', marshal_float32 (PolarAngle s))]"

definition marshal_boneRotation :: "boneRotation \<Rightarrow> error + json" where
  "marshal_boneRotation r =
     marshal_object
       [(''quaternion'', marshal_objQuaternionRotation (Quaternion r)),
        (''spherical'', marshal_objSphericalRotation (Spherical r))]"

definition marshal_vrmBone :: "vrmBone \<Rightarrow> error + json" where
  "marshal_vrmBone b =
     marshal_object
       [(''position'', marshal_objPosition (Position b)),
        (''rotation'', marshal_boneRotation (Rotation b))]"

text \<open>
  A Go map with string keys; the handlers build maps of one entry. (\<open>json.Marshal\<close> replaces
  invalid UTF-8 in a key by U+FFFD. Such a key matches no field name, before and after, so
  the replacement is left out.)
\<close>

definition marshal_map :: "('v \<Rightarrow> error + json) \<Rightarrow> (string \<times> 'v) list \<Rightarrow> error + json" where
  "marshal_map enc m = marshal_object (map (\<lambda>(k, v). (k, enc v)) m)"

text \<open>
  Field matching of \<open>json.Unmarshal\<close>: the field whose JSON name is the key, else the first
  field whose name equals the key under Unicode simple case folding. The names here are
  ASCII; the only other runes that fold to an ASCII letter are the Kelvin sign U+212A
  (bytes E2 84 AA), which folds to K, and the long s U+017F (bytes C5 BF), which folds to S.
\<close>

definition toUpperByte :: "char \<Rightarrow> char" where
  "toUpperByte c = (if isLower c then char_of (of_char c - 32 :: nat) else c)"

function foldName :: "string \<Rightarrow> string" where
  "foldName [] = []"
| "foldName (c # cs) =
     (if c = CHR 0xE2 \<and> take 2 cs = [CHR 0x84, CHR 0xAA] then CHR ''K'' # foldName (drop 2 cs)
      else if c = CHR 0xC5 \<and> take 1 cs = [CHR 0xBF] then CHR ''S'' # foldName (drop 1 cs)
      else toUpperByte c # foldName cs)"
  by pat_completeness auto
termination
  by (relation "measure length") auto

definition findField :: "(string \<times> 'f) list \<Rightarrow> string \<Rightarrow> 'f option" where
  "findField flds key =
     (case map_of flds key of
        Some f \<Rightarrow> Some f
      | None \<Rightarrow> map_option snd (find (\<lambda>(name, f). foldName name = foldName key) flds))"

text \<open>
  \<open>json.Unmarshal\<close> into a value that exists: \<open>null\<close> leaves it as it is, a number sets a
  float, an object sets the fields its keys match, in the order of the keys, and skips the
  other keys. A value of the wrong type leaves the target as it is; the first such error is
  kept and returned at the end, and decoding goes on.
\<close>

definition unmarshal_float32 :: "json \<Rightarrow> float32 \<Rightarrow> float32 \<times> error option" where
  "unmarshal_float32 j old =
     (case j of
        JNull \<Rightarrow> (old, None)
      | JNumber v \<Rightarrow> (case v of Finite r \<Rightarrow> (v, None) | _ \<Rightarrow> (old, Some UnmarshalTypeError))
      | _ \<Rightarrow> (old, Some UnmarshalTypeError))"

fun unmarshal_members ::
  "(string \<times> 'f) list \<Rightarrow> ('f \<Rightarrow> json \<Rightarrow> 's \<Rightarrow> 's \<times> error option) \<Rightarrow> (string \<times> json) list \<Rightarrow> 's
     \<Rightarrow> 's \<times> error option" where
  "unmarshal_members flds dec [] s = (s, None)"
| "unmarshal_members flds dec ((k, v) # kvs) s =
     (case findField flds k of
        None \<Rightarrow> unmarshal_members flds dec kvs s
      | Some f \<Rightarrow>
          (case dec f v s of (s', e) \<Rightarrow>
             (case unmarshal_members flds dec kvs s' of (s'', e') \<Rightarrow>
                (s'', (case e of None \<Rightarrow> e' | Some x \<Rightarrow> Some x)))))"

definition unmarshal_struct ::
  "(string \<times> 'f) list \<Rightarrow> ('f \<Rightarrow> json \<Rightarrow> 's \<Rightarrow> 's \<times> error option) \<Rightarrow> json \<Rightarrow> 's
     \<Rightarrow> 's \<times> error option" where
  "unmarshal_struct flds dec j s =
     (case j of
        JNull \<Rightarrow> (s, None)
      | JObject kvs \<Rightarrow> unmarshal_members flds dec kvs s
      | _ \<Rightarrow> (s, Some UnmarshalTypeError))"

text \<open>A field of a small struct is its decoder: it reads the field, decodes into it, writes it.\<close>

definition struct_field ::
  "('s \<Rightarrow> 'a) \<Rightarrow> ('a \<Rightarrow> 's \<Rightarrow> 's) \<Rightarrow> (json \<Rightarrow> 'a \<Rightarrow> 'a \<times> error option) \<Rightarrow> json \<Rightarrow> 's
     \<Rightarrow> 's \<times> error option" where
  "struct_field get put dec j s = (case dec j (get s) of (a, e) \<Rightarrow> (put a s, e))"

definition unmarshal_objPosition :: "json \<Rightarrow> objPosition \<Rightarrow> objPosition \<times> error option" where
  "unmarshal_objPosition =
     unmarshal_struct
       [(''x'', struct_field pos_x (\<lambda>a p. p\<lparr>pos_x := a\<rparr>) unmarshal_float32),
        (''y'', struct_field pos_y (\<lambda>a p. p\<lparr>pos_y := a\<rparr>) unmarshal_float32),
        (''z'', struct_field pos_z (\<lambda>a p. p\<lparr>pos_z := a\<rparr>) unmarshal_float32)]
       (\<lambda>f. f)"

definition unmarshal_objQuaternionRotation ::
  "json \<Rightarrow> objQuaternionRotation \<Rightarrow> objQuaternionRotation \<times> error option" where
  "unmarshal_objQuaternionRotation =
     unmarshal_struct
       [(''x'', struct_field quat_x (\<lambda>a q. q\<lparr>quat_x := a\<rparr>) unmarshal_float32),
        (''y'', struct_field quat_y (\<lambda>a q. q\<lparr>quat_y := a\<rparr>) unmarshal_float32),
        (''z'', struct_field quat_z (\<lambda>a q. q\<lparr>quat_z := a\<rparr>) unmarshal_float32),
        (''w'', struct_field quat_w (\<lambda>a q. q\<lparr>quat_w := a\<rparr>) unmarshal_float32)]
       (\<lambda>f. f)"

definition unmarshal_objSphericalRotation ::
  "json \<Rightarrow> objSphericalRotation \<Rightarrow> objSphericalRotation \<times> error option" where
  "unmarshal_objSphericalRotation =
     unmarshal_struct
       [(''azimuth'', struct_field AzimuthAngle (\<lambda>a s. s\<lparr>AzimuthAngle := a\<rparr>) unmarshal_float32),
        (''polar'', struct_field PolarAngle (\<lambda>a s. s\<lparr>PolarAngle := a\<rparr>) unmarshal_float32)]
       (\<lambda>f. f)"

definition unmarshal_boneRotation :: "json \<Rightarrow> boneRotation \<Rightarrow> boneRotation \<times> error option" where
  "unmarshal_boneRotation =
     unmarshal_struct
       [(''quaternion'',
           struct_field Quaternion (\<lambda>a r. r\<lparr>Quaternion := a\<rparr>) unmarshal_objQuaternionRotation),
        (''spherical'',
           struct_field Spherical (\<lambda>a r. r\<lparr>Spherical := a\<rparr>) unmarshal_objSphericalRotation)]
       (\<lambda>f. f)"

definition unmarshal_vrmBone :: "json \<Rightarrow> vrmBone \<Rightarrow> vrmBone \<times> error option" where
  "unmarshal_vrmBone =
     unmarshal_struct
       [(''position'', struct_field Position (\<lambda>a b. b\<lparr>Position := a\<rparr>) unmarshal_objPosition),
        (''rotation'', struct_field Rotation (\<lambda>a b. b\<lparr>Rotation := a\<rparr>) unmarshal_boneRotation)]
       (\<lambda>f. f)"

definition unmarshal_cameraType :: "json \<Rightarrow> cameraType \<Rightarrow> cameraType \<times> error option" where
  "unmarshal_cameraType =
     unmarshal_struct
       [(''position'', struct_field camPosition (\<lambda>a c. c\<lparr>camPosition := a\<rparr>) unmarshal_objPosition),
        (''target'', struct_field camTarget (\<lambda>a c. c\<lparr>camTarget := a\<rparr>) unmarshal_objPosition)]
       (\<lambda>f. f)"

definition unmarshal_vrmBones :: "json \<Rightarrow> vrmBones \<Rightarrow> vrmBones \<times> error option" where
  "unmarshal_vrmBones =
     unmarshal_struct vrmBones_fields
       (\<lambda>b. struct_field (\<lambda>bones. bones b) (\<lambda>a bones. bones(b := a)) unmarshal_vrmBone)"

definition unmarshal_vrmFaceBlendShapes ::
  "json \<Rightarrow> vrmFaceBlendShapes \<Rightarrow> vrmFaceBlendShapes \<times> error option" where
  "unmarshal_vrmFaceBlendShapes =
     unmarshal_struct vrmFaceBlendShapes_fields
       (\<lambda>f. struct_field (\<lambda>face. face f) (\<lambda>a face. face(f := a)) unmarshal_float32)"

section \<open>The VMC listener\<close>

text \<open>
  An OSC message: an address and arguments of the types \<open>go-osc\<close> decodes. A result
  \<open>Inl e\<close> is an error return, or a run-time panic when \<open>isPanic e\<close>; \<open>Blocked\<close> is
  neither: the goroutine cannot go on from where it is.
\<close>

datatype osc_arg =
    OscInt32 int
  | OscFloat32 float32
  | OscString string
  | OscBlob string
  | OscInt64 int
  | OscFloat64 rat
  | OscBool bool
  | OscNil
  | OscTimetag nat

record osc_Message =
  Address :: string
  Arguments :: "osc_arg list"

definition isPanic :: "error \<Rightarrow> bool" where
  "isPanic e \<longleftrightarrow>
     e = IndexOutOfRangePanic \<or> e = SliceBoundsPanic \<or> e = NilDereferencePanic \<or>
     e = SendOnClosedChannelPanic \<or> e = CloseOfClosedChannelPanic \<or>
     e = CloseOfNilChannelPanic"

text \<open>\<open>parseBone\<close>: \<open>msg.Arguments[1:]\<close> panics on a message without arguments.\<close>

fun parseBone_loop :: "osc_arg list \<Rightarrow> float32 list \<Rightarrow> error + float32 list" where
  "parseBone_loop [] boneData = Inr boneData"
| "parseBone_loop (v # vs) boneData =
     (case v of
        OscFloat32 coord \<Rightarrow> parseBone_loop vs (boneData @ [coord])
      | _ \<Rightarrow> Inl TypeAssertError)"

definition parseBone :: "osc_Message \<Rightarrow> error + float32 list" where
  "parseBone msg =
     (case Arguments msg of
        [] \<Rightarrow> Inl SliceBoundsPanic
      | key # rest \<Rightarrow> parseBone_loop rest [])"

text \<open>\<open>parseKey\<close>: \<open>msg.Arguments[0]\<close> panics on a message without arguments.\<close>

definition parseKey :: "osc_Message \<Rightarrow> error + string" where
  "parseKey msg =
     (case Arguments msg of
        [] \<Rightarrow> Inl IndexOutOfRangePanic
      | a # rest \<Rightarrow>
          (case a of
             OscString rawKey \<Rightarrow>
               (case camelToSnake rawKey of Inl err \<Rightarrow> Inl err | Inr key \<Rightarrow> Inr key)
           | _ \<Rightarrow> Inl TypeAssertError))"

text \<open>
  The handler of \<open>/VMC/Ext/Blend/Val\<close>, on the global \<open>liveVRM\<close>. The result is the new
  \<open>liveVRM\<close> when the handler returns, and \<open>Inl\<close> when it panics. Every error is a plain
  \<open>return\<close>. \<open>msg.Arguments[1]\<close> is read only after the key was found to be a string.
\<close>

definition handleBlendVal :: "osc_Message \<Rightarrow> vrmType \<Rightarrow> error + vrmType" where
  "handleBlendVal msg liveVRM =
     (case Arguments msg of
        [] \<Rightarrow> Inl IndexOutOfRangePanic
      | a0 # rest \<Rightarrow>
          (case a0 of
             OscString key \<Rightarrow>
               (case rest of
                  [] \<Rightarrow> Inl IndexOutOfRangePanic
                | a1 # rest' \<Rightarrow>
                    (case a1 of
                       OscFloat32 blendValue \<Rightarrow>
                         (let blendValue =
                                (if f32_less (Finite 1) blendValue then Finite 1 else blendValue);
                              blendValue =
                                (if f32_less blendValue (Finite 0) then Finite 0 else blendValue);
                              newMap = [(key, blendValue)]
                          in case marshal_map marshal_float32 newMap of
                               Inl err \<Rightarrow> Inr liveVRM
                             | Inr mapBytes \<Rightarrow>
                                 (let shapes = BlendShapes liveVRM;
                                      face = fst (unmarshal_vrmFaceBlendShapes mapBytes
                                                    (FaceBlendShapes shapes))
                                  in Inr (liveVRM\<lparr>BlendShapes :=
                                            shapes\<lparr>FaceBlendShapes := face\<rparr>\<rparr>)))
                     | _ \<Rightarrow> Inr liveVRM))
           | _ \<Rightarrow> Inr liveVRM))"

text \<open>
  The handler of \<open>/VMC/Ext/Bone/Pos\<close>. \<open>value[0]\<close> to \<open>value[6]\<close> are read without a check of
  the length: fewer than seven coordinates are a panic, more than seven are ignored.
\<close>

definition handleBonePos :: "osc_Message \<Rightarrow> vrmType \<Rightarrow> error + vrmType" where
  "handleBonePos msg liveVRM =
     (case parseKey msg of
        Inl err \<Rightarrow> (if isPanic err then Inl err else Inr liveVRM)
      | Inr key \<Rightarrow>
          (case parseBone msg of
             Inl err \<Rightarrow> (if isPanic err then Inl err else Inr liveVRM)
           | Inr value \<Rightarrow>
               if length value < 7 then Inl IndexOutOfRangePanic
               else
                 (let newBone =
                        \<lparr>Position = \<lparr>pos_x = value ! 0, pos_y = value ! 1, pos_z = value ! 2\<rparr>,
                         Rotation =
                           \<lparr>Quaternion =
                              \<lparr>quat_x = value ! 3, quat_y = value ! 4, quat_z = value ! 5,
                               quat_w = value ! 6\<rparr>,
                            Spherical = \<lparr>AzimuthAngle = Finite 0, PolarAngle = Finite 0\<rparr>\<rparr>\<rparr>;
                      newBones = [(key, newBone)]
                  in case marshal_map marshal_vrmBone newBones of
                       Inl err \<Rightarrow> Inr liveVRM
                     | Inr newBoneBytes \<Rightarrow>
                         Inr (liveVRM\<lparr>Bones :=
                                fst (unmarshal_vrmBones newBoneBytes (Bones liveVRM))\<rparr>))))"

text \<open>What the claims about the stored pose read: one face value, and the range \<open>[0,1]\<close>.\<close>

definition faceOf :: "vrmType \<Rightarrow> face_field \<Rightarrow> float32" where
  "faceOf vrm f = FaceBlendShapes (BlendShapes vrm) f"

definition inUnitRange :: "float32 \<Rightarrow> bool" where
  "inUnitRange v = (case v of Finite r \<Rightarrow> 0 \<le> r \<and> r \<le> 1 | _ \<Rightarrow> False)"

definition isFinite :: "float32 \<Rightarrow> bool" where
  "isFinite v = (case v of Finite r \<Rightarrow> True | _ \<Rightarrow> False)"

text \<open>The bone that the handler of a bone message builds from seven or more coordinates.\<close>

definition boneOf :: "float32 list \<Rightarrow> vrmBone" where
  "boneOf vs =
     \<lparr>Position = \<lparr>pos_x = vs ! 0, pos_y = vs ! 1, pos_z = vs ! 2\<rparr>,
      Rotation =
        \<lparr>Quaternion = \<lparr>quat_x = vs ! 3, quat_y = vs ! 4, quat_z = vs ! 5, quat_w = vs ! 6\<rparr>,
         Spherical = \<lparr>AzimuthAngle = Finite 0, PolarAngle = Finite 0\<rparr>\<rparr>\<rparr>"

text \<open>A well-formed bone message, and the bone it carries.\<close>

definition sampleBoneMsg :: osc_Message where
  "sampleBoneMsg =
     \<lparr>Address = ''/VMC/Ext/Bone/Pos'',
      Arguments = OscString ''LeftUpperLeg'' #
        map (\<lambda>r. OscFloat32 (Finite r)) [1, 2, 3, 4, 5, 6, 7]\<rparr>"

definition sampleBone :: vrmBone where
  "sampleBone =
     \<lparr>Position = \<lparr>pos_x = Finite 1, pos_y = Finite 2, pos_z = Finite 3\<rparr>,
      Rotation =
        \<lparr>Quaternion = \<lparr>quat_x = Finite 4, quat_y = Finite 5, quat_z = Finite 6, quat_w = Finite 7\<rparr>,
         Spherical = \<lparr>AzimuthAngle = Finite 0, PolarAngle = Finite 0\<rparr>\<rparr>\<rparr>"

text \<open>
  A pose that is not the zero pose, a bone message with a NaN coordinate and a blend message
  with a NaN value.
\<close>

definition samplePose :: vrmType where
  "samplePose =
     zero_vrmType
       \<lparr>Bones := (Bones zero_vrmType)(Hips := sampleBone),
        BlendShapes := (BlendShapes zero_vrmType)\<lparr>FaceBlendShapes :=
          (FaceBlendShapes (BlendShapes zero_vrmType))(EyeBlinkLeft := Finite (21 / 50))\<rparr>\<rparr>"

definition nanBoneMsg :: osc_Message where
  "nanBoneMsg =
     \<lparr>Address = ''/VMC/Ext/Bone/Pos'',
      Arguments = OscString ''Hips'' #
        map OscFloat32 [NaN, Finite 0, Finite 0, Finite 0, Finite 0, Finite 0, Finite 1]\<rparr>"

definition nanBlendMsg :: osc_Message where
  "nanBlendMsg =
     \<lparr>Address = ''/VMC/Ext/Blend/Val'',
      Arguments = [OscString ''EyeBlinkLeft'', OscFloat32 NaN]\<rparr>"

section \<open>The WebSocket pool of \<open>main.go\<close>\<close>

text \<open>
  A channel made by \<open>make(chan cameraType)\<close> is a reference into a store of channels;
  \<open>chan_sent\<close> is what has been sent on it and received, in order. The pool runs in several
  goroutines: \<open>start\<close> in one, and \<open>add\<close>, \<open>remove\<close> and \<open>send\<close> in the goroutine of each
  connection. The model is a state with one function for each step that a goroutine makes on
  the shared pool; a run is a list of such steps in the order in which they happen.
\<close>

type_synonym chan_ref = nat

record chan =
  chan_sent :: "cameraType list"
  chan_closed :: bool

record websocketClient =
  clientID :: string
  Channel :: chan_ref

text \<open>
  Where the goroutine of \<open>start\<close> is: waiting at \<open>msg := <-p.BroadcastChannel\<close>; at the
  head of the \<open>range\<close> loop with a message and the keys of the map it has not reached; or at
  \<open>client.Channel <- msg\<close> with the client that \<open>range\<close> has just produced.
\<close>

datatype start_state =
    Waiting
  | Ranging cameraType "string list"
  | Sending cameraType websocketClient "string list"

text \<open>
  The Go map \<open>Clients\<close> is a list of entries with distinct keys; its order stands for the
  order in which \<open>range\<close> happens to visit the map.
\<close>

record websocketPool =
  Clients :: "(string \<times> websocketClient) list"
  chans :: "chan_ref \<rightharpoonup> chan"
  next_chan :: chan_ref
  start_at :: start_state

definition newPool :: websocketPool where
  "newPool = \<lparr>Clients = [], chans = Map.empty, next_chan = 0, start_at = Waiting\<rparr>"

definition count :: "websocketPool \<Rightarrow> nat" where
  "count p = length (Clients p)"

text \<open>
  \<open>add\<close>. An entry that is created while \<open>range\<close> runs may be produced by it or not;
  \<open>visited\<close> says which.
\<close>

definition add :: "string \<Rightarrow> bool \<Rightarrow> websocketPool \<Rightarrow> websocketPool" where
  "add cid visited p =
     (let newClient = \<lparr>clientID = cid, Channel = next_chan p\<rparr>;
          reach = (\<lambda>todo. if visited \<and> cid \<notin> set todo then todo @ [cid] else todo)
      in p\<lparr>chans := (chans p)(next_chan p \<mapsto> \<lparr>chan_sent = [], chan_closed = False\<rparr>),
           next_chan := Suc (next_chan p),
           Clients := AList.update cid newClient (Clients p),
           start_at :=
             (case start_at p of
                Waiting \<Rightarrow> Waiting
              | Ranging msg todo \<Rightarrow> Ranging msg (reach todo)
              | Sending msg client todo \<Rightarrow> Sending msg client (reach todo))\<rparr>)"

text \<open>
  \<open>remove\<close>: \<open>p.Clients[id]\<close> of an unknown \<open>id\<close> is the zero client, whose channel is
  nil, and \<open>close\<close> of a nil or of a closed channel panics. The entry leaves the map; a
  \<open>range\<close> that has not reached it will not produce it.
\<close>

definition remove :: "string \<Rightarrow> websocketPool \<Rightarrow> error + websocketPool" where
  "remove cid p =
     (case map_of (Clients p) cid of
        None \<Rightarrow> Inl CloseOfNilChannelPanic
      | Some client \<Rightarrow>
          (case chans p (Channel client) of
             None \<Rightarrow> Inl CloseOfNilChannelPanic
           | Some ch \<Rightarrow>
               if chan_closed ch then Inl CloseOfClosedChannelPanic
               else Inr (p\<lparr>chans := (chans p)(Channel client \<mapsto> ch\<lparr>chan_closed := True\<rparr>),
                          Clients := AList.delete cid (Clients p)\<rparr>)))"

text \<open>
  \<open>send\<close> is \<open>p.BroadcastChannel <- msg\<close> on an unbuffered channel: it returns when
  \<open>start\<close>, waiting at its receive, has taken the message, and \<open>start\<close> then enters the
  \<open>range\<close> loop over the map. While \<open>start\<close> is elsewhere \<open>send\<close> waits.
\<close>

definition send :: "cameraType \<Rightarrow> websocketPool \<Rightarrow> error + websocketPool" where
  "send msg p =
     (case start_at p of
        Waiting \<Rightarrow> Inr (p\<lparr>start_at := Ranging msg (map fst (Clients p))\<rparr>)
      | _ \<Rightarrow> Inl Blocked)"

text \<open>
  The head of \<open>for _, client := range p.Clients\<close>: the next key that is still in the map
  gives the client, read from the map as it is now; with no key left \<open>start\<close> goes back to
  its receive.
\<close>

fun next_client ::
  "string list \<Rightarrow> (string \<times> websocketClient) list \<Rightarrow> (websocketClient \<times> string list) option"
  where
  "next_client [] clients = None"
| "next_client (k # todo) clients =
     (case map_of clients k of
        None \<Rightarrow> next_client todo clients
      | Some client \<Rightarrow> Some (client, todo))"

definition start_range :: "websocketPool \<Rightarrow> error + websocketPool" where
  "start_range p =
     (case start_at p of
        Ranging msg todo \<Rightarrow>
          (case next_client todo (Clients p) of
             None \<Rightarrow> Inr (p\<lparr>start_at := Waiting\<rparr>)
           | Some (client, todo') \<Rightarrow> Inr (p\<lparr>start_at := Sending msg client todo'\<rparr>))
      | _ \<Rightarrow> Inl Blocked)"

text \<open>
  The body \<open>client.Channel <- msg\<close>, met by the receive of the goroutine that \<open>listen\<close>
  started for the client. A send on a closed channel panics, also when the channel is closed
  while the send waits; a send on a nil channel waits for ever.
\<close>

definition start_deliver :: "websocketPool \<Rightarrow> error + websocketPool" where
  "start_deliver p =
     (case start_at p of
        Sending msg client todo \<Rightarrow>
          (case chans p (Channel client) of
             None \<Rightarrow> Inl Blocked
           | Some ch \<Rightarrow>
               if chan_closed ch then Inl SendOnClosedChannelPanic
               else Inr (p\<lparr>chans := (chans p)(Channel client \<mapsto>
                                 ch\<lparr>chan_sent := chan_sent ch @ [msg]\<rparr>),
                          start_at := Ranging msg todo\<rparr>))
      | _ \<Rightarrow> Inl Blocked)"

text \<open>A run of the pool: the steps of its goroutines in the order in which they happen.\<close>

datatype pool_step =
    Add string bool
  | Remove string
  | Send cameraType
  | NextClient
  | Deliver

fun step :: "pool_step \<Rightarrow> websocketPool \<Rightarrow> error + websocketPool" where
  "step (Add cid visited) p = Inr (add cid visited p)"
| "step (Remove cid) p = remove cid p"
| "step (Send msg) p = send msg p"
| "step NextClient p = start_range p"
| "step Deliver p = start_deliver p"

fun run :: "pool_step list \<Rightarrow> websocketPool \<Rightarrow> error + websocketPool" where
  "run [] p = Inr p"
| "run (s # steps) p = (case step s p of Inl e \<Rightarrow> Inl e | Inr p' \<Rightarrow> run steps p')"

text \<open>
  What the subscriber of each channel has received, channel by channel in the order in which
  the channels were made, and where \<open>start\<close> is.
\<close>

definition received :: "websocketPool \<Rightarrow> chan_ref \<Rightarrow> cameraType list" where
  "received p c = (case chans p c of None \<Rightarrow> [] | Some ch \<Rightarrow> chan_sent ch)"

definition outcome :: "error + websocketPool \<Rightarrow> error + (cameraType list list \<times> start_state)" where
  "outcome r =
     (case r of
        Inl e \<Rightarrow> Inl e
      | Inr p \<Rightarrow> Inr (map (received p) [0..<next_chan p], start_at p))"

definition sampleCamera :: cameraType where
  "sampleCamera =
     \<lparr>camPosition = \<lparr>pos_x = Finite 1, pos_y = Finite 2, pos_z = Finite 3\<rparr>,
      camTarget = \<lparr>pos_x = Finite 4, pos_y = Finite 5, pos_z = Finite 6\<rparr>\<rparr>"

section \<open>The router: camera synchronisation and the switch of the receiver\<close>

text \<open>
  Modelled from the spec: \<open>obj.Camera\<close> and \<open>pool.Update\<close> are not under \<open>src/\<close>. The
  specification gives a Camera a position and a target of three coordinates each, which is
  \<open>cameraType\<close> of \<open>main.go\<close>; \<open>Update\<close> publishes one value to the pool, recorded here
  as the list of the values published so far.
\<close>

record scene =
  Camera :: cameraType
  published :: "cameraType list"

text \<open>
  What \<open>ws.ReadJSON\<close> meets on the connection: a failure to read a message or a text that
  is not JSON (nothing is decoded), or a JSON value, which is decoded into the target.
\<close>

datatype frame = ReadFailure | JsonFrame json

text \<open>
  The handler of \<open>/live/write/camera\<close> on the frames that arrive: \<open>ws.ReadJSON\<close> decodes
  into \<open>sceneConfig.Camera\<close> itself; on an error the handler returns, else it publishes the
  camera and reads on. With no frame left the handler waits in \<open>ReadJSON\<close>.
\<close>

fun writeCamera :: "frame list \<Rightarrow> scene \<Rightarrow> scene" where
  "writeCamera [] sceneConfig = sceneConfig"
| "writeCamera (ReadFailure # rest) sceneConfig = sceneConfig"
| "writeCamera (JsonFrame j # rest) sceneConfig =
     (case unmarshal_cameraType j (Camera sceneConfig) of
        (camera, Some err) \<Rightarrow> sceneConfig\<lparr>Camera := camera\<rparr>
      | (camera, None) \<Rightarrow>
          writeCamera rest
            (sceneConfig\<lparr>Camera := camera, published := published sceneConfig @ [camera]\<rparr>))"

definition marshal_cameraType :: "cameraType \<Rightarrow> error + json" where
  "marshal_cameraType c =
     marshal_object
       [(''position'', marshal_objPosition (camPosition c)),
        (''target'', marshal_objPosition (camTarget c))]"

text \<open>
  What a JSON object carries under a name: the values of the keys that match the name, in
  the order of the object, and the number it carries, which is the last of them that is a
  finite number.
\<close>

definition carried :: "string \<Rightarrow> (string \<times> json) list \<Rightarrow> json list" where
  "carried name kvs = map snd (filter (\<lambda>(k, v). foldName k = foldName name) kvs)"

fun isFiniteNumber :: "json \<Rightarrow> bool" where
  "isFiniteNumber (JNumber (Finite r)) = True"
| "isFiniteNumber j = False"

definition carried_number :: "string \<Rightarrow> (string \<times> json) list \<Rightarrow> float32 option" where
  "carried_number name kvs =
     (let numbers = filter isFiniteNumber (carried name kvs)
      in if numbers = [] then None
         else (case last numbers of JNumber x \<Rightarrow> Some x | _ \<Rightarrow> None))"

text \<open>
  The frames that \<open>json.Unmarshal\<close> takes without an error: a coordinate takes \<open>null\<close>
  and a finite number; a position takes \<open>null\<close> and an object in which every value under
  \<open>x\<close>, \<open>y\<close> and \<open>z\<close> is one a coordinate takes; a camera takes \<open>null\<close> and an object in
  which every value under \<open>position\<close> and \<open>target\<close> is one a position takes.
\<close>

definition decodes_float32 :: "json \<Rightarrow> bool" where
  "decodes_float32 j = (j = JNull \<or> isFiniteNumber j)"

definition decodes_objPosition :: "json \<Rightarrow> bool" where
  "decodes_objPosition j =
     (case j of
        JNull \<Rightarrow> True
      | JObject kvs \<Rightarrow>
          list_all decodes_float32 (carried ''x'' kvs @ carried ''y'' kvs @ carried ''z'' kvs)
      | _ \<Rightarrow> False)"

definition decodes_cameraType :: "json \<Rightarrow> bool" where
  "decodes_cameraType j =
     (case j of
        JNull \<Rightarrow> True
      | JObject kvs \<Rightarrow>
          list_all decodes_objPosition (carried ''position'' kvs @ carried ''target'' kvs)
      | _ \<Rightarrow> False)"

text \<open>The cameras that a sequence of frames leaves, one after the other.\<close>

fun decoded_cameras :: "json list \<Rightarrow> cameraType \<Rightarrow> cameraType list" where
  "decoded_cameras [] c = []"
| "decoded_cameras (j # js) c =
     fst (unmarshal_cameraType j c) # decoded_cameras js (fst (unmarshal_cameraType j c))"

text \<open>
  Modelled from the spec: \<open>receivers.MotionReceiver\<close> is not under \<open>src/\<close>. The
  specification gives a receiver the two operations \<open>Start\<close> and \<open>Stop\<close>; a call of one
  of them is recorded in the list of the calls made so far. A receiver is a pointer;
  \<open>receiverMap\<close> maps a name to a pointer or to nil, \<open>activeReceiver\<close> is a pointer or
  nil, and a call through a nil pointer is taken to panic.
\<close>

type_synonym receiver_ref = nat

datatype receiver_call = StopCall receiver_ref | StartCall receiver_ref

record router =
  appConfig_Receiver :: string
  activeReceiver :: "receiver_ref option"
  receiver_calls :: "receiver_call list"

definition Stop :: "router \<Rightarrow> error + router" where
  "Stop rt =
     (case activeReceiver rt of
        None \<Rightarrow> Inl NilDereferencePanic
      | Some r \<Rightarrow> Inr (rt\<lparr>receiver_calls := receiver_calls rt @ [StopCall r]\<rparr>))"

definition Start :: "router \<Rightarrow> error + router" where
  "Start rt =
     (case activeReceiver rt of
        None \<Rightarrow> Inl NilDereferencePanic
      | Some r \<Rightarrow> Inr (rt\<lparr>receiver_calls := receiver_calls rt @ [StartCall r]\<rparr>))"

text \<open>\<open>New\<close> starts with the receiver that the configuration names.\<close>

definition New :: "(string \<rightharpoonup> receiver_ref) \<Rightarrow> string \<Rightarrow> router" where
  "New receiverMap receiver =
     \<lparr>appConfig_Receiver = receiver, activeReceiver = receiverMap receiver, receiver_calls = []\<rparr>"

text \<open>
  The handler of \<open>/api/receiver/update\<close>; \<open>body\<close> is what \<open>io.ReadAll(r.Body)\<close> returns.
  It stops the active receiver, sets \<open>appConfig.Receiver\<close>, makes the receiver of that name
  the active one and starts it.
\<close>

definition receiverUpdate ::
  "(string \<rightharpoonup> receiver_ref) \<Rightarrow> error + string \<Rightarrow> router \<Rightarrow> error + router" where
  "receiverUpdate receiverMap body rt =
     (case body of
        Inl err \<Rightarrow> Inr rt
      | Inr suggestedReceiver \<Rightarrow>
          if receiverMap suggestedReceiver = None then Inr rt
          else
            (case Stop rt of
               Inl e \<Rightarrow> Inl e
             | Inr rt \<Rightarrow>
                 (let rt = rt\<lparr>appConfig_Receiver := suggestedReceiver\<rparr>;
                      rt = rt\<lparr>activeReceiver := receiverMap (appConfig_Receiver rt)\<rparr>
                  in Start rt)))"

text \<open>The name that \<open>/api/receiver\<close> reports as active.\<close>

definition activeName :: "router \<Rightarrow> string" where
  "activeName rt = appConfig_Receiver rt"

section \<open>Properties of the key helpers\<close>

lemma isUpper_not_isLower: "isUpper c \<Longrightarrow> \<not> isLower c"
  by (simp add: isUpper_def isLower_def)

lemma matchAllLowerUpper_Cons: "\<not> isLower a \<Longrightarrow> matchAllLowerUpper (a # s) = a # matchAllLowerUpper s"
  by (cases s) simp_all

lemma spec_insert_separators_eq:
  "spec_insert_separators prev s =
     (if s \<noteq> [] \<and> isUpper (hd s) \<and> (case prev of None \<Rightarrow> False | Some p \<Rightarrow> isLower p)
      then CHR ''_'' # matchAllLowerUpper s else matchAllLowerUpper s)"
proof (induction s arbitrary: prev)
  case Nil
  then show ?case by simp
next
  case (Cons c cs)
  have step: "c # spec_insert_separators (Some c) cs = matchAllLowerUpper (c # cs)"
  proof (cases cs)
    case Nil
    then show ?thesis by simp
  next
    case (Cons b rest)
    show ?thesis
      unfolding Cons.IH [of "Some c"] using Cons
      by (simp add: matchAllLowerUpper_Cons isUpper_not_isLower)
  qed
  show ?case using step by simp
qed

lemma matchAllLowerUpper_spec: "matchAllLowerUpper s = spec_insert_separators None s"
  by (simp add: spec_insert_separators_eq)

lemma HasSuffix_append [simp]: "HasSuffix (p @ suf) suf"
  by (simp add: HasSuffix_def)

lemma HasSuffixE: "HasSuffix s suf \<Longrightarrow> s = take (length s - length suf) s @ suf"
  by (metis HasSuffix_def append_take_drop_id)

lemma HasSuffix_left_r [simp]: "\<not> HasSuffix (p @ ''_left'') ''_r''" "\<not> HasSuffix (p @ ''_left'') ''_l''"
  "\<not> HasSuffix (p @ ''_right'') ''_r''" "\<not> HasSuffix (p @ ''_right'') ''_l''"
  by (simp_all add: HasSuffix_def)

lemma normalizeVMCKey_eq_spec: "normalizeVMCKey key = Inr (spec_normalize key)"
  by (simp add: normalizeVMCKey_def spec_normalize_def matchAllLowerUpper_spec matchEndingL_def matchEndingR_def Let_def)

lemma not_isUpper_toLowerByte: "\<not> isUpper (toLowerByte c)"
  by (auto simp: toLowerByte_def isUpper_def of_char_of)

lemma toLowerByte_id: "\<not> isUpper c \<Longrightarrow> toLowerByte c = c"
  by (simp add: toLowerByte_def)

lemma ToLower_no_upper: "\<forall>c\<in>set (ToLower s). \<not> isUpper c"
  by (auto simp: ToLower_def not_isUpper_toLowerByte)

lemma ToLower_id: "\<forall>c\<in>set s. \<not> isUpper c \<Longrightarrow> ToLower s = s"
  by (simp add: ToLower_def map_idI toLowerByte_id)

lemma ToLower_append: "ToLower (a @ b) = ToLower a @ ToLower b"
  by (simp add: ToLower_def)

lemma matchAllLowerUpper_id: "\<forall>c\<in>set s. \<not> isUpper c \<Longrightarrow> matchAllLowerUpper s = s"
  by (induction s rule: matchAllLowerUpper.induct) auto

lemma matchAllCap_id: "\<forall>c\<in>set s. \<not> isUpper c \<Longrightarrow> matchAllCap s = s"
  by (induction s rule: matchAllCap.induct) auto

lemma matchFirstCap_id: "\<forall>c\<in>set s. \<not> isUpper c \<Longrightarrow> matchFirstCap s = s"
  by (induction s rule: matchFirstCap.induct) auto

lemma camelToSnake_lower: "\<forall>c\<in>set s. \<not> isUpper c \<Longrightarrow> camelToSnake s = Inr s"
  by (simp add: camelToSnake_def matchFirstCap_id matchAllCap_id ToLower_id)

lemma camelToSnake_idem: "\<exists>n. camelToSnake k = Inr n \<and> camelToSnake n = Inr n"
proof -
  have "camelToSnake k = Inr (ToLower (matchAllCap (matchFirstCap k)))"
    by (simp add: camelToSnake_def)
  then show ?thesis
    using camelToSnake_lower [OF ToLower_no_upper] by blast
qed

lemma spec_normalize_no_upper: "\<forall>c\<in>set (spec_normalize k). \<not> isUpper c"
proof -
  have a: "\<forall>c\<in>set (''_left''). \<not> isUpper c" "\<forall>c\<in>set (''_right''). \<not> isUpper c"
    by (simp_all add: isUpper_def)
  have b: "\<forall>c\<in>set (take n (ToLower s)). \<not> isUpper c" for n s
    using ToLower_no_upper [of s] by (meson in_set_takeD)
  show ?thesis
    unfolding spec_normalize_def Let_def using a b ToLower_no_upper by (auto simp del: list.set)
qed

lemma spec_normalize_suffix: "\<not> HasSuffix (spec_normalize k) ''_l''" "\<not> HasSuffix (spec_normalize k) ''_r''"
  by (simp_all add: spec_normalize_def Let_def)

lemma normalizeVMCKey_lower:
  assumes "\<forall>c\<in>set s. \<not> isUpper c" "\<not> HasSuffix s ''_l''" "\<not> HasSuffix s ''_r''"
  shows "normalizeVMCKey s = Inr s"
  using assms
  by (simp add: normalizeVMCKey_def matchAllLowerUpper_id ToLower_id matchEndingL_def matchEndingR_def)

lemma normalizeVMCKey_idem: "\<exists>n. normalizeVMCKey k = Inr n \<and> normalizeVMCKey n = Inr n"
  using normalizeVMCKey_lower [OF spec_normalize_no_upper spec_normalize_suffix]
  by (simp add: normalizeVMCKey_eq_spec)

lemma spec_insert_separators_append:
  "spec_insert_separators prev (xs @ ys) =
     spec_insert_separators prev xs @ spec_insert_separators (if xs = [] then prev else Some (last xs)) ys"
  by (induction xs arbitrary: prev) auto

lemma spec_normalize_ending_r:
  assumes "HasSuffix key ''_r''"
  shows "HasSuffix (spec_normalize key) ''_right''"
proof -
  obtain p where key: "key = p @ ''_r''"
    using HasSuffixE [OF assms] by blast
  have sep: "spec_insert_separators q ''_r'' = ''_r''" for q
    by (simp add: isUpper_def)
  have low: "ToLower ''_r'' = ''_r''"
    by (simp add: ToLower_def toLowerByte_def isUpper_def)
  have "ToLower (spec_insert_separators None key) = ToLower (spec_insert_separators None p) @ ''_r''"
    unfolding key spec_insert_separators_append sep ToLower_append low ..
  then show ?thesis
    by (simp add: spec_normalize_def Let_def HasSuffix_def)
qed

lemma parseKey_string:
  "parseKey \<lparr>Address = a, Arguments = OscString key # rest\<rparr> = camelToSnake key"
  by (simp add: parseKey_def split: sum.split)

text \<open>
  C3 (as amended). \<open>normalizeVMCKey\<close> is the normalization the specification words: on an
  ASCII key it inserts a separator before each upper-case letter that follows a lower-case
  letter, lowercases the string and rewrites a trailing \<open>_l\<close> to \<open>_left\<close>, a trailing \<open>_r\<close>
  to \<open>_right\<close>; it maps \<open>EyeBlinkLeft\<close> to \<open>eye_blink_left\<close>, \<open>BrowInnerUp\<close> to
  \<open>brow_inner_up\<close>, \<open>hand_l\<close> to \<open>hand_left\<close> and a key that ends in \<open>_r\<close> to one that
  ends in \<open>_right\<close>. The decoder does not call it: \<open>parseKey\<close> normalizes the key of a bone
  message with \<open>camelToSnake\<close>, which agrees on \<open>EyeBlinkLeft\<close> and \<open>BrowInnerUp\<close> and returns
  a key without upper-case letters as it is.
\<close>

theorem normalizeVMCKey_spec:
  "(\<forall>key. isASCII key \<longrightarrow> normalizeVMCKey key = Inr (spec_normalize key)) \<and>
   normalizeVMCKey ''EyeBlinkLeft'' = Inr ''eye_blink_left'' \<and>
   normalizeVMCKey ''BrowInnerUp'' = Inr ''brow_inner_up'' \<and>
   normalizeVMCKey ''hand_l'' = Inr ''hand_left'' \<and>
   (\<forall>key. isASCII key \<longrightarrow> HasSuffix key ''_r'' \<longrightarrow>
      (\<exists>n. normalizeVMCKey key = Inr n \<and> HasSuffix n ''_right'')) \<and>
   (\<forall>a key rest. parseKey \<lparr>Address = a, Arguments = OscString key # rest\<rparr> = camelToSnake key) \<and>
   camelToSnake ''EyeBlinkLeft'' = Inr ''eye_blink_left'' \<and>
   camelToSnake ''BrowInnerUp'' = Inr ''brow_inner_up'' \<and>
   (\<forall>key. isASCII key \<longrightarrow> (\<forall>c\<in>set key. \<not> isUpper c) \<longrightarrow> camelToSnake key = Inr key)"
proof -
  have e1: "normalizeVMCKey ''EyeBlinkLeft'' = Inr ''eye_blink_left''" by code_simp
  have e2: "normalizeVMCKey ''BrowInnerUp'' = Inr ''brow_inner_up''" by code_simp
  have e3: "normalizeVMCKey ''hand_l'' = Inr ''hand_left''" by code_simp
  have e4: "camelToSnake ''EyeBlinkLeft'' = Inr ''eye_blink_left''" by code_simp
  have e5: "camelToSnake ''BrowInnerUp'' = Inr ''brow_inner_up''" by code_simp
  have r: "\<exists>n. normalizeVMCKey key = Inr n \<and> HasSuffix n ''_right''"
    if "HasSuffix key ''_r''" for key
    using spec_normalize_ending_r [OF that] by (simp add: normalizeVMCKey_eq_spec)
  show ?thesis
    using e1 e2 e3 e4 e5 r normalizeVMCKey_eq_spec parseKey_string camelToSnake_lower
    by blast
qed

theorem normalizeVMCKey_spec_witness:
  "isASCII ''shoulder_r'' \<and> HasSuffix ''shoulder_r'' ''_r'' \<and>
   list_all (\<lambda>c. \<not> isUpper c) ''shoulder_r'' \<and>
   normalizeVMCKey ''shoulder_r'' = Inr (spec_normalize ''shoulder_r'') \<and>
   (\<exists>n. normalizeVMCKey ''shoulder_r'' = Inr n \<and> HasSuffix n ''_right'') \<and>
   camelToSnake ''shoulder_r'' = Inr ''shoulder_r''"
proof -
  have a: "isASCII ''shoulder_r''" by code_simp
  have b: "HasSuffix ''shoulder_r'' ''_r''" by code_simp
  have c: "list_all (\<lambda>c. \<not> isUpper c) ''shoulder_r''" by code_simp
  then have c': "\<forall>c\<in>set ''shoulder_r''. \<not> isUpper c" by (simp only: list_all_iff)
  show ?thesis
    using a b c c' normalizeVMCKey_spec by blast
qed

text \<open>
  C3, the claim as it stands, fails on the decoder: the key \<open>hand_l\<close> of a bone message
  comes out of \<open>parseKey\<close> as \<open>hand_l\<close>, not as \<open>hand_left\<close>.
\<close>

theorem parseKey_hand_l_counterexample:
  "parseKey \<lparr>Address = ''/VMC/Ext/Bone/Pos'', Arguments = [OscString ''hand_l'']\<rparr> = Inr ''hand_l'' \<and>
   parseKey \<lparr>Address = ''/VMC/Ext/Bone/Pos'', Arguments = [OscString ''hand_l'']\<rparr> \<noteq> Inr ''hand_left''"
  by code_simp

text \<open>
  C9. Key normalization is a function that always returns a key (never an error), and on
  every key of the vocabularies, all of them ASCII, normalizing the normalized key returns it
  unchanged; this holds of \<open>normalizeVMCKey\<close> and of \<open>camelToSnake\<close>, the normalization that
  \<open>parseKey\<close> applies.
\<close>

theorem key_normalization_idempotent:
  "\<forall>k\<in>set keyVocabulary.
     isASCII k \<and>
     (\<exists>n. normalizeVMCKey k = Inr n \<and> normalizeVMCKey n = Inr n) \<and>
     (\<exists>n. camelToSnake k = Inr n \<and> camelToSnake n = Inr n)"
proof -
  have "\<forall>k\<in>set keyVocabulary. isASCII k" by code_simp
  then show ?thesis
    using normalizeVMCKey_idem camelToSnake_idem by blast
qed

theorem key_normalization_idempotent_witness:
  "''LeftUpperLeg'' \<in> set keyVocabulary \<and> ''EyeBlinkLeft'' \<in> set keyVocabulary \<and>
   (\<exists>n. normalizeVMCKey ''LeftUpperLeg'' = Inr n \<and> normalizeVMCKey n = Inr n) \<and>
   (\<exists>n. camelToSnake ''EyeBlinkLeft'' = Inr n \<and> camelToSnake n = Inr n)"
proof -
  have a: "''LeftUpperLeg'' \<in> set keyVocabulary" by code_simp
  have b: "''EyeBlinkLeft'' \<in> set keyVocabulary" by code_simp
  show ?thesis
    using a b key_normalization_idempotent by blast
qed

section \<open>Properties of the VMC handlers\<close>

lemma marshal_map_single:
  "marshal_map enc [(k, v)] = (case enc v of Inl e \<Rightarrow> Inl e | Inr j \<Rightarrow> Inr (JObject [(k, j)]))"
  by (cases "enc v") (simp_all add: marshal_map_def marshal_object_def)

lemma unmarshal_struct_single:
  "unmarshal_struct flds dec (JObject [(k, v)]) s =
     (case findField flds k of None \<Rightarrow> (s, None) | Some f \<Rightarrow> dec f v s)"
  by (simp add: unmarshal_struct_def split: option.split prod.split)

lemma marshal_float32_Inr: "marshal_float32 v = Inr j \<longleftrightarrow> (\<exists>r. v = Finite r \<and> j = JNumber v)"
  by (cases v) (auto simp: marshal_float32_def)

lemma roundtrip_float32: "marshal_float32 v = Inr j \<Longrightarrow> unmarshal_float32 j old = (v, None)"
  by (auto simp: marshal_float32_Inr unmarshal_float32_def)

lemma marshal_object_Cons:
  "marshal_object ((k, x) # rest) = Inr j \<longleftrightarrow>
     (\<exists>jx js. x = Inr jx \<and> marshal_object rest = Inr (JObject js) \<and> j = JObject ((k, jx) # js))"
  by (cases x) (auto simp: marshal_object_def split: sum.splits)

lemma marshal_object_Nil: "marshal_object [] = Inr (JObject [])"
  by (simp add: marshal_object_def)

lemma findField_hit: "map_of flds k = Some f \<Longrightarrow> findField flds k = Some f"
  by (simp add: findField_def)

lemma roundtrip_objPosition:
  "marshal_objPosition p = Inr j \<Longrightarrow> unmarshal_objPosition j old = (p, None)"
  by (auto simp: marshal_objPosition_def unmarshal_objPosition_def marshal_object_Cons
      marshal_object_Nil unmarshal_struct_def findField_hit struct_field_def
      roundtrip_float32)

lemma roundtrip_objQuaternionRotation:
  "marshal_objQuaternionRotation p = Inr j \<Longrightarrow> unmarshal_objQuaternionRotation j old = (p, None)"
  by (auto simp: marshal_objQuaternionRotation_def unmarshal_objQuaternionRotation_def marshal_object_Cons
      marshal_object_Nil unmarshal_struct_def findField_hit struct_field_def
      roundtrip_float32)

lemma roundtrip_objSphericalRotation:
  "marshal_objSphericalRotation p = Inr j \<Longrightarrow> unmarshal_objSphericalRotation j old = (p, None)"
  by (auto simp: marshal_objSphericalRotation_def unmarshal_objSphericalRotation_def marshal_object_Cons
      marshal_object_Nil unmarshal_struct_def findField_hit struct_field_def
      roundtrip_float32)

lemma roundtrip_boneRotation:
  "marshal_boneRotation p = Inr j \<Longrightarrow> unmarshal_boneRotation j old = (p, None)"
  by (auto simp: marshal_boneRotation_def unmarshal_boneRotation_def marshal_object_Cons
      marshal_object_Nil unmarshal_struct_def findField_hit struct_field_def
      roundtrip_objQuaternionRotation roundtrip_objSphericalRotation)

lemma roundtrip_vrmBone:
  "marshal_vrmBone p = Inr j \<Longrightarrow> unmarshal_vrmBone j old = (p, None)"
  by (auto simp: marshal_vrmBone_def unmarshal_vrmBone_def marshal_object_Cons
      marshal_object_Nil unmarshal_struct_def findField_hit struct_field_def
      roundtrip_objPosition roundtrip_boneRotation)

lemma unmarshal_face_single:
  "unmarshal_vrmFaceBlendShapes (JObject [(k, JNumber (Finite r))]) face =
     (case findField vrmFaceBlendShapes_fields k of
        None \<Rightarrow> (face, None)
      | Some f \<Rightarrow> (face(f := Finite r), None))"
  by (simp add: unmarshal_vrmFaceBlendShapes_def unmarshal_struct_single struct_field_def
      unmarshal_float32_def split: option.split)

lemma unmarshal_bones_single:
  "marshal_vrmBone newBone = Inr j \<Longrightarrow>
   unmarshal_vrmBones (JObject [(k, j)]) bones =
     (case findField vrmBones_fields k of
        None \<Rightarrow> (bones, None)
      | Some b \<Rightarrow> (bones(b := newBone), None))"
  by (simp add: unmarshal_vrmBones_def unmarshal_struct_single struct_field_def
      roundtrip_vrmBone split: option.split)

lemma handleBlendVal_Finite:
  "Arguments msg = OscString key # OscFloat32 (Finite r) # rest \<Longrightarrow>
   handleBlendVal msg vrm =
     Inr (case findField vrmFaceBlendShapes_fields key of
            None \<Rightarrow> vrm
          | Some f \<Rightarrow>
              vrm\<lparr>BlendShapes := (BlendShapes vrm)\<lparr>FaceBlendShapes :=
                (FaceBlendShapes (BlendShapes vrm))(f := Finite (max 0 (min 1 r)))\<rparr>\<rparr>)"
  by (auto simp: handleBlendVal_def Let_def marshal_map_single marshal_float32_def
      unmarshal_face_single max_def min_def split: option.split)

lemma handleBlendVal_PosInf:
  "Arguments msg = OscString key # OscFloat32 PosInf # rest \<Longrightarrow>
   handleBlendVal msg vrm =
     Inr (case findField vrmFaceBlendShapes_fields key of
            None \<Rightarrow> vrm
          | Some f \<Rightarrow>
              vrm\<lparr>BlendShapes := (BlendShapes vrm)\<lparr>FaceBlendShapes :=
                (FaceBlendShapes (BlendShapes vrm))(f := Finite 1)\<rparr>\<rparr>)"
  by (auto simp: handleBlendVal_def Let_def marshal_map_single marshal_float32_def
      unmarshal_face_single split: option.split)

lemma handleBlendVal_NegInf:
  "Arguments msg = OscString key # OscFloat32 NegInf # rest \<Longrightarrow>
   handleBlendVal msg vrm =
     Inr (case findField vrmFaceBlendShapes_fields key of
            None \<Rightarrow> vrm
          | Some f \<Rightarrow>
              vrm\<lparr>BlendShapes := (BlendShapes vrm)\<lparr>FaceBlendShapes :=
                (FaceBlendShapes (BlendShapes vrm))(f := Finite 0)\<rparr>\<rparr>)"
  by (auto simp: handleBlendVal_def Let_def marshal_map_single marshal_float32_def
      unmarshal_face_single split: option.split)

lemma handleBlendVal_NaN:
  "Arguments msg = OscString key # OscFloat32 NaN # rest \<Longrightarrow>
   handleBlendVal msg vrm = Inr vrm"
  by (simp add: handleBlendVal_def Let_def marshal_map_single marshal_float32_def)

lemma handleBlendVal_cases:
  assumes "handleBlendVal msg vrm = Inr vrm'"
  shows "vrm' = vrm \<or>
    (\<exists>key v rest f r. Arguments msg = OscString key # OscFloat32 v # rest \<and>
       findField vrmFaceBlendShapes_fields key = Some f \<and> 0 \<le> r \<and> r \<le> 1 \<and>
       vrm' = vrm\<lparr>BlendShapes := (BlendShapes vrm)\<lparr>FaceBlendShapes :=
                (FaceBlendShapes (BlendShapes vrm))(f := Finite r)\<rparr>\<rparr>)"
proof (cases "Arguments msg")
  case Nil
  with assms show ?thesis by (simp add: handleBlendVal_def)
next
  case (Cons a0 rest)
  note a0 = this
  show ?thesis
  proof (cases "\<exists>key. a0 = OscString key")
    case False
    with assms a0 show ?thesis by (auto simp: handleBlendVal_def split: osc_arg.splits)
  next
    case True
    then obtain key where key: "a0 = OscString key" by blast
    show ?thesis
    proof (cases rest)
      case Nil
      with assms a0 key show ?thesis by (simp add: handleBlendVal_def)
    next
      case (Cons a1 rest')
      note a1 = this
      show ?thesis
      proof (cases "\<exists>v. a1 = OscFloat32 v")
        case False
        with assms a0 key a1 show ?thesis by (auto simp: handleBlendVal_def split: osc_arg.splits)
      next
        case True
        then obtain v where v: "a1 = OscFloat32 v" by blast
        have msg: "Arguments msg = OscString key # OscFloat32 v # rest'"
          using a0 key a1 v by simp
        have upd: "vrm' = vrm \<or> (\<exists>f r. findField vrmFaceBlendShapes_fields key = Some f \<and>
            0 \<le> r \<and> r \<le> 1 \<and>
            vrm' = vrm\<lparr>BlendShapes := (BlendShapes vrm)\<lparr>FaceBlendShapes :=
                (FaceBlendShapes (BlendShapes vrm))(f := Finite r)\<rparr>\<rparr>)"
        proof (cases "findField vrmFaceBlendShapes_fields key")
          case None
          then have "vrm' = vrm"
            using assms msg handleBlendVal_Finite [of msg key _ rest' vrm]
              handleBlendVal_PosInf [of msg key rest' vrm]
              handleBlendVal_NegInf [of msg key rest' vrm]
              handleBlendVal_NaN [of msg key rest' vrm]
            by (cases v) simp_all
          then show ?thesis ..
        next
          case (Some f)
          show ?thesis
          proof (cases v)
            case (Finite r)
            have "0 \<le> max 0 (min 1 r)" "max 0 (min 1 r) \<le> 1" by simp_all
            moreover have "vrm' = vrm\<lparr>BlendShapes := (BlendShapes vrm)\<lparr>FaceBlendShapes :=
                (FaceBlendShapes (BlendShapes vrm))(f := Finite (max 0 (min 1 r)))\<rparr>\<rparr>"
              using assms msg Some Finite handleBlendVal_Finite [of msg key r rest' vrm] by simp
            ultimately show ?thesis using Some by blast
          next
            case PosInf
            have "(0::rat) \<le> 1" "(1::rat) \<le> 1" by simp_all
            moreover have "vrm' = vrm\<lparr>BlendShapes := (BlendShapes vrm)\<lparr>FaceBlendShapes :=
                (FaceBlendShapes (BlendShapes vrm))(f := Finite 1)\<rparr>\<rparr>"
              using assms msg Some PosInf handleBlendVal_PosInf [of msg key rest' vrm] by simp
            ultimately show ?thesis using Some by blast
          next
            case NegInf
            have "(0::rat) \<le> 0" "(0::rat) \<le> 1" by simp_all
            moreover have "vrm' = vrm\<lparr>BlendShapes := (BlendShapes vrm)\<lparr>FaceBlendShapes :=
                (FaceBlendShapes (BlendShapes vrm))(f := Finite 0)\<rparr>\<rparr>"
              using assms msg Some NegInf handleBlendVal_NegInf [of msg key rest' vrm] by simp
            ultimately show ?thesis using Some by blast
          next
            case NaN
            then have "vrm' = vrm"
              using assms msg handleBlendVal_NaN [of msg key rest' vrm] by simp
            then show ?thesis ..
          qed
        qed
        then show ?thesis using msg by blast
      qed
    qed
  qed
qed

lemma parseBone_loop_floats: "parseBone_loop (map OscFloat32 vs) acc = Inr (acc @ vs)"
  by (induction vs arbitrary: acc) simp_all

lemma camelToSnake_Inr: "\<exists>key. camelToSnake rawKey = Inr key"
  by (simp add: camelToSnake_def)

lemma handleBonePos_short:
  assumes "Arguments msg = OscString rawKey # map OscFloat32 vs" "length vs < 7"
  shows "handleBonePos msg vrm = Inl IndexOutOfRangePanic"
proof -
  obtain key where "camelToSnake rawKey = Inr key"
    using camelToSnake_Inr by blast
  then show ?thesis
    using assms by (simp add: handleBonePos_def parseKey_def parseBone_def parseBone_loop_floats)
qed

lemma handleBonePos_cases:
  assumes "handleBonePos msg vrm = Inr vrm'"
  shows "vrm' = vrm \<or>
    (\<exists>key b newBone. parseKey msg = Inr key \<and> findField vrmBones_fields key = Some b \<and>
       vrm' = vrm\<lparr>Bones := (Bones vrm)(b := newBone)\<rparr>)"
proof (cases "parseKey msg")
  case (Inl err)
  with assms show ?thesis by (simp add: handleBonePos_def split: if_splits)
next
  case (Inr key)
  note key = this
  show ?thesis
  proof (cases "parseBone msg")
    case (Inl err)
    with assms key show ?thesis by (simp add: handleBonePos_def split: if_splits)
  next
    case (Inr "value")
    define newBone where "newBone =
      \<lparr>Position = \<lparr>pos_x = value ! 0, pos_y = value ! 1, pos_z = value ! 2\<rparr>,
       Rotation =
         \<lparr>Quaternion =
            \<lparr>quat_x = value ! 3, quat_y = value ! 4, quat_z = value ! 5, quat_w = value ! 6\<rparr>,
          Spherical = \<lparr>AzimuthAngle = Finite 0, PolarAngle = Finite 0\<rparr>\<rparr>\<rparr>"
    have len: "\<not> length value < 7"
      using assms key Inr by (auto simp: handleBonePos_def)
    show ?thesis
    proof (cases "marshal_vrmBone newBone")
      case (Inl err)
      then have "vrm' = vrm"
        using assms key Inr len
        by (simp add: handleBonePos_def Let_def marshal_map_single newBone_def)
      then show ?thesis ..
    next
      case (Inr j)
      have "vrm' = vrm\<lparr>Bones := fst (unmarshal_vrmBones (JObject [(key, j)]) (Bones vrm))\<rparr>"
        using assms key \<open>parseBone msg = Inr value\<close> len Inr
        by (simp add: handleBonePos_def Let_def marshal_map_single newBone_def)
      then show ?thesis
        using key unmarshal_bones_single [OF Inr, of key "Bones vrm"]
        by (cases "findField vrmBones_fields key") auto
    qed
  qed
qed

text \<open>
  A bone message with a key and at least seven finite coordinates sets the bone that the key
  names from the first seven; what follows them is ignored.
\<close>

lemma handleBonePos_ok:
  assumes "Arguments msg =
      OscString rawKey #
      map OscFloat32 ([Finite x, Finite y, Finite z, Finite qx, Finite qy, Finite qz, Finite qw] @ extra)"
    and "camelToSnake rawKey = Inr key"
  shows "handleBonePos msg vrm =
     Inr (case findField vrmBones_fields key of
            None \<Rightarrow> vrm
          | Some b \<Rightarrow> vrm\<lparr>Bones := (Bones vrm)(b :=
              \<lparr>Position = \<lparr>pos_x = Finite x, pos_y = Finite y, pos_z = Finite z\<rparr>,
               Rotation =
                 \<lparr>Quaternion =
                    \<lparr>quat_x = Finite qx, quat_y = Finite qy, quat_z = Finite qz, quat_w = Finite qw\<rparr>,
                  Spherical = \<lparr>AzimuthAngle = Finite 0, PolarAngle = Finite 0\<rparr>\<rparr>\<rparr>)\<rparr>)"
proof -
  let ?nb = "\<lparr>Position = \<lparr>pos_x = Finite x, pos_y = Finite y, pos_z = Finite z\<rparr>,
               Rotation =
                 \<lparr>Quaternion =
                    \<lparr>quat_x = Finite qx, quat_y = Finite qy, quat_z = Finite qz, quat_w = Finite qw\<rparr>,
                  Spherical = \<lparr>AzimuthAngle = Finite 0, PolarAngle = Finite 0\<rparr>\<rparr>\<rparr>"
  obtain j where j: "marshal_vrmBone ?nb = Inr j"
    by (simp add: marshal_vrmBone_def marshal_objPosition_def marshal_boneRotation_def
        marshal_objQuaternionRotation_def marshal_objSphericalRotation_def marshal_object_def
        marshal_float32_def)
  have "parseBone msg =
      Inr ([Finite x, Finite y, Finite z, Finite qx, Finite qy, Finite qz, Finite qw] @ extra)"
    using assms(1) by (simp add: parseBone_def parseBone_loop_floats)
  then show ?thesis
    using assms j unmarshal_bones_single [OF j, of key "Bones vrm"]
    by (simp add: handleBonePos_def parseKey_def Let_def marshal_map_single nth_append
        split: option.split)
qed

lemma find_SomeD: "find P xs = Some x \<Longrightarrow> x \<in> set xs \<and> P x"
  by (induction xs) (auto split: if_splits)

lemma findField_iff:
  assumes "distinct (map (foldName \<circ> fst) flds)"
  shows "findField flds key = Some f \<longleftrightarrow>
     (\<exists>name. (name, f) \<in> set flds \<and> foldName name = foldName key)"
proof -
  have inj: "p = q" if "p \<in> set flds" "q \<in> set flds" "foldName (fst p) = foldName (fst q)" for p q
  proof -
    have "inj_on (foldName \<circ> fst) (set flds)"
      using assms by (simp add: distinct_map)
    moreover have "(foldName \<circ> fst) p = (foldName \<circ> fst) q"
      using that(3) by simp
    ultimately show ?thesis
      using that(1,2) by (rule inj_onD)
  qed
  show ?thesis
  proof
    assume l: "findField flds key = Some f"
    show "\<exists>name. (name, f) \<in> set flds \<and> foldName name = foldName key"
    proof (cases "map_of flds key")
      case (Some f')
      with l have "(key, f) \<in> set flds"
        by (auto simp: findField_def dest: map_of_SomeD)
      then show ?thesis by blast
    next
      case None
      with l obtain name where "find (\<lambda>(name, f). foldName name = foldName key) flds = Some (name, f)"
        by (auto simp: findField_def)
      then show ?thesis
        by (auto dest: find_SomeD)
    qed
  next
    assume "\<exists>name. (name, f) \<in> set flds \<and> foldName name = foldName key"
    then obtain name where n: "(name, f) \<in> set flds" "foldName name = foldName key"
      by blast
    show "findField flds key = Some f"
    proof (cases "map_of flds key")
      case (Some f')
      then have "(key, f') \<in> set flds" by (rule map_of_SomeD)
      with n inj [of "(key, f')" "(name, f)"] have "f' = f" by simp
      with Some show ?thesis by (simp add: findField_def)
    next
      case None
      have "find (\<lambda>(name, f). foldName name = foldName key) flds \<noteq> None"
        using n by (auto simp: find_None_iff)
      then obtain n' f' where fd: "find (\<lambda>(name, f). foldName name = foldName key) flds = Some (n', f')"
        by auto
      then have "(n', f') \<in> set flds" "foldName n' = foldName key"
        by (auto dest: find_SomeD)
      with n inj [of "(n', f')" "(name, f)"] have "f' = f" by simp
      with None fd show ?thesis by (simp add: findField_def)
    qed
  qed
qed


text \<open>
  C1. A message with too few arguments is not dropped: the handlers index the arguments
  without a check of their number, and the index is out of range. A bone message with a key
  and three coordinates, a bone message without arguments, a blend message with a key only and
  a blend message without arguments all end in a run-time panic.
\<close>

theorem short_message_panics:
  "handleBonePos
     \<lparr>Address = ''/VMC/Ext/Bone/Pos'',
      Arguments = [OscString ''Hips'', OscFloat32 (Finite 1), OscFloat32 (Finite 2),
                   OscFloat32 (Finite 3)]\<rparr> zero_vrmType = Inl IndexOutOfRangePanic \<and>
   handleBonePos \<lparr>Address = ''/VMC/Ext/Bone/Pos'', Arguments = []\<rparr> zero_vrmType =
     Inl IndexOutOfRangePanic \<and>
   handleBlendVal \<lparr>Address = ''/VMC/Ext/Blend/Val'', Arguments = [OscString ''JawOpen'']\<rparr>
     zero_vrmType = Inl IndexOutOfRangePanic \<and>
   handleBlendVal \<lparr>Address = ''/VMC/Ext/Blend/Val'', Arguments = []\<rparr> zero_vrmType =
     Inl IndexOutOfRangePanic \<and>
   isPanic IndexOutOfRangePanic"
proof -
  have "handleBonePos
     \<lparr>Address = ''/VMC/Ext/Bone/Pos'',
      Arguments = [OscString ''Hips'', OscFloat32 (Finite 1), OscFloat32 (Finite 2),
                   OscFloat32 (Finite 3)]\<rparr> zero_vrmType = Inl IndexOutOfRangePanic"
    by (rule handleBonePos_short [where vs = "[Finite 1, Finite 2, Finite 3]"]) simp_all
  moreover have "handleBonePos \<lparr>Address = ''/VMC/Ext/Bone/Pos'', Arguments = []\<rparr> zero_vrmType =
     Inl IndexOutOfRangePanic"
    by (simp add: handleBonePos_def parseKey_def isPanic_def)
  ultimately show ?thesis
    by (simp add: handleBlendVal_def isPanic_def)
qed

text \<open>An argument of the wrong type, on the other hand, makes the handler return at once.\<close>

lemma handleBonePos_type_mismatch:
  "Arguments msg = a # rest \<Longrightarrow> (\<forall>k. a \<noteq> OscString k) \<Longrightarrow> handleBonePos msg vrm = Inr vrm"
  "Arguments msg = OscString k # map OscFloat32 vs @ b # rest \<Longrightarrow> (\<forall>v. b \<noteq> OscFloat32 v) \<Longrightarrow>
     handleBonePos msg vrm = Inr vrm"
proof -
  show "handleBonePos msg vrm = Inr vrm" if "Arguments msg = a # rest" "\<forall>k. a \<noteq> OscString k"
    using that by (cases a) (simp_all add: handleBonePos_def parseKey_def isPanic_def)
  have loop: "parseBone_loop (map OscFloat32 vs @ b # rest) acc = Inl TypeAssertError"
    if "\<forall>v. b \<noteq> OscFloat32 v" for acc
    using that by (induction vs arbitrary: acc) (cases b; simp)+
  obtain key where "camelToSnake k = Inr key"
    using camelToSnake_Inr by blast
  then show "handleBonePos msg vrm = Inr vrm"
    if "Arguments msg = OscString k # map OscFloat32 vs @ b # rest" "\<forall>v. b \<noteq> OscFloat32 v"
    using that loop by (simp add: handleBonePos_def parseKey_def parseBone_def isPanic_def)
qed

lemma handleBlendVal_type_mismatch:
  "Arguments msg = a # rest \<Longrightarrow> (\<forall>k. a \<noteq> OscString k) \<Longrightarrow> handleBlendVal msg vrm = Inr vrm"
  "Arguments msg = OscString k # b # rest \<Longrightarrow> (\<forall>v. b \<noteq> OscFloat32 v) \<Longrightarrow>
     handleBlendVal msg vrm = Inr vrm"
proof -
  show "handleBlendVal msg vrm = Inr vrm" if "Arguments msg = a # rest" "\<forall>k. a \<noteq> OscString k"
    using that by (cases a) (simp_all add: handleBlendVal_def)
  show "handleBlendVal msg vrm = Inr vrm"
    if "Arguments msg = OscString k # b # rest" "\<forall>v. b \<noteq> OscFloat32 v"
    using that by (cases b) (simp_all add: handleBlendVal_def)
qed

lemma marshal_float32_if:
  "marshal_float32 v = (if isFinite v then Inr (JNumber v) else Inl UnsupportedValueError)"
  by (cases v) (simp_all add: marshal_float32_def isFinite_def)

lemma marshal_vrmBone_boneOf:
  assumes "7 \<le> length vs"
  shows "(\<exists>j. marshal_vrmBone (boneOf vs) = Inr j) \<longleftrightarrow> list_all isFinite (take 7 vs)"
proof -
  obtain a b c d e f g rest where vs: "vs = a # b # c # d # e # f # g # rest"
    using assms by (auto simp: le_Suc_eq Suc_le_length_iff numeral_eq_Suc)
  have z: "isFinite (Finite 0)" by (simp add: isFinite_def)
  show ?thesis
    unfolding vs
    by (simp add: boneOf_def marshal_vrmBone_def marshal_objPosition_def marshal_boneRotation_def
        marshal_objQuaternionRotation_def marshal_objSphericalRotation_def marshal_object_def
        marshal_float32_if z)
qed

lemma handleBonePos_floats:
  assumes "Arguments msg = OscString rawKey # map OscFloat32 vs" "7 \<le> length vs"
    and "camelToSnake rawKey = Inr key"
  shows "handleBonePos msg vrm =
     Inr (if list_all isFinite (take 7 vs)
          then (case findField vrmBones_fields key of
                  None \<Rightarrow> vrm
                | Some b \<Rightarrow> vrm\<lparr>Bones := (Bones vrm)(b := boneOf vs)\<rparr>)
          else vrm)"
proof -
  have pb: "parseBone msg = Inr vs"
    using assms(1) by (simp add: parseBone_def parseBone_loop_floats)
  have pk: "parseKey msg = Inr key"
    using assms(1,3) by (simp add: parseKey_def)
  have h: "handleBonePos msg vrm =
      (case marshal_vrmBone (boneOf vs) of
         Inl err \<Rightarrow> Inr vrm
       | Inr j \<Rightarrow> Inr (vrm\<lparr>Bones := fst (unmarshal_vrmBones (JObject [(key, j)]) (Bones vrm))\<rparr>))"
    using pb pk assms(2)
    by (simp add: handleBonePos_def Let_def marshal_map_single boneOf_def split: sum.split)
  show ?thesis
  proof (cases "list_all isFinite (take 7 vs)")
    case True
    then obtain j where j: "marshal_vrmBone (boneOf vs) = Inr j"
      using marshal_vrmBone_boneOf [OF assms(2)] by blast
    show ?thesis
      using True h j unmarshal_bones_single [OF j, of key "Bones vrm"]
      by (simp split: option.split)
  next
    case False
    then have "\<nexists>j. marshal_vrmBone (boneOf vs) = Inr j"
      using marshal_vrmBone_boneOf [OF assms(2)] by blast
    then obtain e where "marshal_vrmBone (boneOf vs) = Inl e"
      by (cases "marshal_vrmBone (boneOf vs)") auto
    then show ?thesis using False h by simp
  qed
qed

lemma handleBlendVal_value:
  assumes "Arguments msg = OscString key # OscFloat32 v # rest"
    and "findField vrmFaceBlendShapes_fields key = Some f"
  shows "handleBlendVal msg vrm =
     Inr (case v of
            Finite r \<Rightarrow>
              vrm\<lparr>BlendShapes := (BlendShapes vrm)\<lparr>FaceBlendShapes :=
                (FaceBlendShapes (BlendShapes vrm))(f := Finite (max 0 (min 1 r)))\<rparr>\<rparr>
          | PosInf \<Rightarrow>
              vrm\<lparr>BlendShapes := (BlendShapes vrm)\<lparr>FaceBlendShapes :=
                (FaceBlendShapes (BlendShapes vrm))(f := Finite 1)\<rparr>\<rparr>
          | NegInf \<Rightarrow>
              vrm\<lparr>BlendShapes := (BlendShapes vrm)\<lparr>FaceBlendShapes :=
                (FaceBlendShapes (BlendShapes vrm))(f := Finite 0)\<rparr>\<rparr>
          | NaN \<Rightarrow> vrm)"
  using assms handleBlendVal_Finite [of msg key _ rest vrm] handleBlendVal_PosInf [of msg key rest vrm]
    handleBlendVal_NegInf [of msg key rest vrm] handleBlendVal_NaN [of msg key rest vrm]
  by (cases v) simp_all

lemma findField_EyeBlinkLeft: "findField vrmFaceBlendShapes_fields ''EyeBlinkLeft'' = Some EyeBlinkLeft"
  by code_simp

lemma sample_keys:
  "camelToSnake ''LeftUpperLeg'' = Inr ''left_upper_leg''"
  "findField vrmBones_fields ''left_upper_leg'' = Some LeftUpperLeg"
  "camelToSnake ''Hips'' = Inr ''hips''"
  "findField vrmBones_fields ''hips'' = Some Hips"
  "findField vrmFaceBlendShapes_fields ''JawOpen'' = Some JawOpen"
  "isASCII ''LeftUpperLeg''"
  by code_simp+

text \<open>
  C7, the claim as it stands, fails on a NaN: the blend message \<open>EyeBlinkLeft\<close> with the
  value NaN is a decoded message, and it is rejected; the face value stays what it was.
\<close>

theorem nan_blend_dropped:
  "findField vrmFaceBlendShapes_fields ''EyeBlinkLeft'' = Some EyeBlinkLeft \<and>
   Arguments nanBlendMsg = [OscString ''EyeBlinkLeft'', OscFloat32 NaN] \<and>
   handleBlendVal nanBlendMsg samplePose = Inr samplePose \<and>
   faceOf samplePose EyeBlinkLeft = Finite (21 / 50)"
proof -
  have a: "Arguments nanBlendMsg = [OscString ''EyeBlinkLeft'', OscFloat32 NaN]"
    by (simp add: nanBlendMsg_def)
  have "handleBlendVal nanBlendMsg samplePose = Inr samplePose"
    using a by (rule handleBlendVal_NaN)
  moreover have "faceOf samplePose EyeBlinkLeft = Finite (21 / 50)"
    by (simp add: faceOf_def samplePose_def)
  ultimately show ?thesis
    using a findField_EyeBlinkLeft by simp
qed

text \<open>
  C7 (as amended). A blend message whose key names a face shape and whose value is not NaN
  stores the value clamped to \<open>[0,1]\<close>: a finite \<open>r\<close> is stored as \<open>max 0 (min 1 r)\<close>, so
  a value above 1 as 1, a value below 0 as 0 and a value in \<open>[0,1]\<close> as it is; the
  infinities are stored as 1 and 0. Every handled message keeps all the face values in
  \<open>[0,1]\<close>, where they start. A message whose value is NaN is rejected: the handler returns
  with the pose as it was.
\<close>

theorem blend_value_clamped:
  "(\<forall>msg key r rest f vrm.
      Arguments msg = OscString key # OscFloat32 (Finite r) # rest \<longrightarrow>
      findField vrmFaceBlendShapes_fields key = Some f \<longrightarrow>
      (\<exists>vrm'. handleBlendVal msg vrm = Inr vrm' \<and> faceOf vrm' f = Finite (max 0 (min 1 r)) \<and>
         inUnitRange (faceOf vrm' f))) \<and>
   (\<forall>msg key rest f vrm.
      Arguments msg = OscString key # OscFloat32 PosInf # rest \<longrightarrow>
      findField vrmFaceBlendShapes_fields key = Some f \<longrightarrow>
      (\<exists>vrm'. handleBlendVal msg vrm = Inr vrm' \<and> faceOf vrm' f = Finite 1)) \<and>
   (\<forall>msg key rest f vrm.
      Arguments msg = OscString key # OscFloat32 NegInf # rest \<longrightarrow>
      findField vrmFaceBlendShapes_fields key = Some f \<longrightarrow>
      (\<exists>vrm'. handleBlendVal msg vrm = Inr vrm' \<and> faceOf vrm' f = Finite 0)) \<and>
   (\<forall>msg vrm vrm'.
      (\<forall>f. inUnitRange (faceOf vrm f)) \<longrightarrow> handleBlendVal msg vrm = Inr vrm' \<longrightarrow>
      (\<forall>f. inUnitRange (faceOf vrm' f))) \<and>
   (\<forall>f. inUnitRange (faceOf zero_vrmType f)) \<and>
   (\<forall>msg key rest vrm.
      Arguments msg = OscString key # OscFloat32 NaN # rest \<longrightarrow>
      handleBlendVal msg vrm = Inr vrm)"
proof (intro conjI allI impI)
  fix msg :: osc_Message and key r rest f vrm
  assume a: "Arguments msg = OscString key # OscFloat32 (Finite r) # rest"
    and f: "findField vrmFaceBlendShapes_fields key = Some f"
  show "\<exists>vrm'. handleBlendVal msg vrm = Inr vrm' \<and> faceOf vrm' f = Finite (max 0 (min 1 r)) \<and>
         inUnitRange (faceOf vrm' f)"
    using handleBlendVal_Finite [OF a, of vrm] f by (simp add: faceOf_def inUnitRange_def)
next
  fix msg :: osc_Message and key rest f vrm
  assume a: "Arguments msg = OscString key # OscFloat32 PosInf # rest"
    and f: "findField vrmFaceBlendShapes_fields key = Some f"
  show "\<exists>vrm'. handleBlendVal msg vrm = Inr vrm' \<and> faceOf vrm' f = Finite 1"
    using handleBlendVal_PosInf [OF a, of vrm] f by (simp add: faceOf_def)
next
  fix msg :: osc_Message and key rest f vrm
  assume a: "Arguments msg = OscString key # OscFloat32 NegInf # rest"
    and f: "findField vrmFaceBlendShapes_fields key = Some f"
  show "\<exists>vrm'. handleBlendVal msg vrm = Inr vrm' \<and> faceOf vrm' f = Finite 0"
    using handleBlendVal_NegInf [OF a, of vrm] f by (simp add: faceOf_def)
next
  fix msg :: osc_Message and vrm vrm' f
  assume inv: "\<forall>f. inUnitRange (faceOf vrm f)" and h: "handleBlendVal msg vrm = Inr vrm'"
  from handleBlendVal_cases [OF h] show "inUnitRange (faceOf vrm' f)"
    using inv by (auto simp: faceOf_def inUnitRange_def)
next
  fix f show "inUnitRange (faceOf zero_vrmType f)"
    by (simp add: faceOf_def inUnitRange_def zero_vrmType_def)
next
  fix msg :: osc_Message and key rest vrm
  assume "Arguments msg = OscString key # OscFloat32 NaN # rest"
  then show "handleBlendVal msg vrm = Inr vrm"
    by (rule handleBlendVal_NaN)
qed

theorem blend_value_clamped_witness:
  "findField vrmFaceBlendShapes_fields ''EyeBlinkLeft'' = Some EyeBlinkLeft \<and>
   (\<exists>vrm'. handleBlendVal
       \<lparr>Address = ''/VMC/Ext/Blend/Val'',
        Arguments = [OscString ''EyeBlinkLeft'', OscFloat32 (Finite (3 / 2))]\<rparr> zero_vrmType = Inr vrm' \<and>
      faceOf vrm' EyeBlinkLeft = Finite 1) \<and>
   (\<exists>vrm'. handleBlendVal
       \<lparr>Address = ''/VMC/Ext/Blend/Val'',
        Arguments = [OscString ''EyeBlinkLeft'', OscFloat32 (Finite (- 3 / 10))]\<rparr> zero_vrmType = Inr vrm' \<and>
      faceOf vrm' EyeBlinkLeft = Finite 0) \<and>
   (\<exists>vrm'. handleBlendVal
       \<lparr>Address = ''/VMC/Ext/Blend/Val'',
        Arguments = [OscString ''EyeBlinkLeft'', OscFloat32 (Finite (21 / 50))]\<rparr> zero_vrmType = Inr vrm' \<and>
      faceOf vrm' EyeBlinkLeft = Finite (21 / 50)) \<and>
   (\<exists>vrm'. handleBlendVal
       \<lparr>Address = ''/VMC/Ext/Blend/Val'',
        Arguments = [OscString ''EyeBlinkLeft'', OscFloat32 PosInf]\<rparr> samplePose = Inr vrm' \<and>
      faceOf vrm' EyeBlinkLeft = Finite 1) \<and>
   (\<exists>vrm'. handleBlendVal
       \<lparr>Address = ''/VMC/Ext/Blend/Val'',
        Arguments = [OscString ''EyeBlinkLeft'', OscFloat32 NegInf]\<rparr> samplePose = Inr vrm' \<and>
      faceOf vrm' EyeBlinkLeft = Finite 0) \<and>
   handleBlendVal nanBlendMsg samplePose = Inr samplePose \<and>
   (\<forall>f. inUnitRange (faceOf samplePose f)) \<and>
   (\<exists>vrm'. handleBlendVal
       \<lparr>Address = ''/VMC/Ext/Blend/Val'',
        Arguments = [OscString ''EyeBlinkLeft'', OscFloat32 (Finite (3 / 2))]\<rparr> samplePose = Inr vrm' \<and>
      (\<forall>f. inUnitRange (faceOf vrm' f)))"
proof -
  note f = findField_EyeBlinkLeft
  note c = blend_value_clamped [THEN conjunct1, rule_format, OF _ f]
  have "\<exists>vrm'. handleBlendVal
       \<lparr>Address = ''/VMC/Ext/Blend/Val'',
        Arguments = [OscString ''EyeBlinkLeft'', OscFloat32 (Finite (3 / 2))]\<rparr> zero_vrmType = Inr vrm' \<and>
      faceOf vrm' EyeBlinkLeft = Finite 1"
    using c [of "\<lparr>Address = ''/VMC/Ext/Blend/Val'',
        Arguments = [OscString ''EyeBlinkLeft'', OscFloat32 (Finite (3 / 2))]\<rparr>" "3 / 2" "[]" zero_vrmType]
    by simp blast
  moreover have "\<exists>vrm'. handleBlendVal
       \<lparr>Address = ''/VMC/Ext/Blend/Val'',
        Arguments = [OscString ''EyeBlinkLeft'', OscFloat32 (Finite (- 3 / 10))]\<rparr> zero_vrmType = Inr vrm' \<and>
      faceOf vrm' EyeBlinkLeft = Finite 0"
    using c [of "\<lparr>Address = ''/VMC/Ext/Blend/Val'',
        Arguments = [OscString ''EyeBlinkLeft'', OscFloat32 (Finite (- 3 / 10))]\<rparr>" "- 3 / 10" "[]" zero_vrmType]
    by simp blast
  moreover have "\<exists>vrm'. handleBlendVal
       \<lparr>Address = ''/VMC/Ext/Blend/Val'',
        Arguments = [OscString ''EyeBlinkLeft'', OscFloat32 (Finite (21 / 50))]\<rparr> zero_vrmType = Inr vrm' \<and>
      faceOf vrm' EyeBlinkLeft = Finite (21 / 50)"
    using c [of "\<lparr>Address = ''/VMC/Ext/Blend/Val'',
        Arguments = [OscString ''EyeBlinkLeft'', OscFloat32 (Finite (21 / 50))]\<rparr>" "21 / 50" "[]" zero_vrmType]
    by simp blast
  moreover have "\<exists>vrm'. handleBlendVal
       \<lparr>Address = ''/VMC/Ext/Blend/Val'',
        Arguments = [OscString ''EyeBlinkLeft'', OscFloat32 PosInf]\<rparr> samplePose = Inr vrm' \<and>
      faceOf vrm' EyeBlinkLeft = Finite 1"
    using blend_value_clamped [THEN conjunct2, THEN conjunct1, rule_format, OF _ f,
        of "\<lparr>Address = ''/VMC/Ext/Blend/Val'',
        Arguments = [OscString ''EyeBlinkLeft'', OscFloat32 PosInf]\<rparr>" "[]" samplePose]
    by simp
  moreover have "\<exists>vrm'. handleBlendVal
       \<lparr>Address = ''/VMC/Ext/Blend/Val'',
        Arguments = [OscString ''EyeBlinkLeft'', OscFloat32 NegInf]\<rparr> samplePose = Inr vrm' \<and>
      faceOf vrm' EyeBlinkLeft = Finite 0"
    using blend_value_clamped [THEN conjunct2, THEN conjunct2, THEN conjunct1, rule_format, OF _ f,
        of "\<lparr>Address = ''/VMC/Ext/Blend/Val'',
        Arguments = [OscString ''EyeBlinkLeft'', OscFloat32 NegInf]\<rparr>" "[]" samplePose]
    by simp
  moreover have "handleBlendVal nanBlendMsg samplePose = Inr samplePose"
    using blend_value_clamped [THEN conjunct2, THEN conjunct2, THEN conjunct2, THEN conjunct2,
        THEN conjunct2, rule_format, of nanBlendMsg "''EyeBlinkLeft''" "[]" samplePose]
    by (simp add: nanBlendMsg_def)
  moreover have inv: "\<forall>f. inUnitRange (faceOf samplePose f)"
    by (simp add: faceOf_def samplePose_def zero_vrmType_def inUnitRange_def)
  moreover have "\<exists>vrm'. handleBlendVal
       \<lparr>Address = ''/VMC/Ext/Blend/Val'',
        Arguments = [OscString ''EyeBlinkLeft'', OscFloat32 (Finite (3 / 2))]\<rparr> samplePose = Inr vrm' \<and>
      (\<forall>f. inUnitRange (faceOf vrm' f))"
  proof -
    obtain vrm' where h: "handleBlendVal
       \<lparr>Address = ''/VMC/Ext/Blend/Val'',
        Arguments = [OscString ''EyeBlinkLeft'', OscFloat32 (Finite (3 / 2))]\<rparr> samplePose = Inr vrm'"
      using c [of "\<lparr>Address = ''/VMC/Ext/Blend/Val'',
        Arguments = [OscString ''EyeBlinkLeft'', OscFloat32 (Finite (3 / 2))]\<rparr>" "3 / 2" "[]" samplePose]
      by auto
    have "\<forall>f. inUnitRange (faceOf vrm' f)"
      by (rule blend_value_clamped [THEN conjunct2, THEN conjunct2, THEN conjunct2, THEN conjunct1,
            rule_format, OF _ h, THEN allI]) (rule inv [rule_format])
    with h show ?thesis by blast
  qed
  ultimately show ?thesis using f by blast
qed

text \<open>
  C8 (as amended). A bone message with a key and seven or more coordinates whose first seven
  are finite sets the bone that its key names to these coordinates (with the spherical
  rotation at zero); with a coordinate among the seven that is NaN or infinite it is dropped.
  A blend message whose key names a face shape sets that shape to the clamped value; with
  the value NaN it is dropped. Whatever the message, when the handler returns every bone but
  the one the key names (the key being ASCII) and every face value but the one the key names
  has the value it had, a bone message leaves the blend shapes and a blend message leaves
  the bones and the dynamic blend shapes as they were.
\<close>

theorem delta_merges_one_key:
  "(\<forall>msg vrm vrm' b.
      handleBonePos msg vrm = Inr vrm' \<longrightarrow>
      (\<forall>rawKey rest. Arguments msg = OscString rawKey # rest \<longrightarrow> isASCII rawKey) \<longrightarrow>
      (\<forall>key. parseKey msg = Inr key \<longrightarrow> findField vrmBones_fields key \<noteq> Some b) \<longrightarrow>
      Bones vrm' b = Bones vrm b) \<and>
   (\<forall>msg vrm vrm'. handleBonePos msg vrm = Inr vrm' \<longrightarrow> BlendShapes vrm' = BlendShapes vrm) \<and>
   (\<forall>msg vrm vrm' f.
      handleBlendVal msg vrm = Inr vrm' \<longrightarrow>
      (\<forall>key rest. Arguments msg = OscString key # rest \<longrightarrow>
         findField vrmFaceBlendShapes_fields key \<noteq> Some f) \<longrightarrow>
      faceOf vrm' f = faceOf vrm f) \<and>
   (\<forall>msg vrm vrm'.
      handleBlendVal msg vrm = Inr vrm' \<longrightarrow>
      Bones vrm' = Bones vrm \<and>
      DynamicBlendShapes (BlendShapes vrm') = DynamicBlendShapes (BlendShapes vrm)) \<and>
   (\<forall>msg rawKey key vs b vrm.
      Arguments msg = OscString rawKey # map OscFloat32 vs \<longrightarrow> 7 \<le> length vs \<longrightarrow>
      isASCII rawKey \<longrightarrow> camelToSnake rawKey = Inr key \<longrightarrow>
      findField vrmBones_fields key = Some b \<longrightarrow>
      handleBonePos msg vrm =
        Inr (if list_all isFinite (take 7 vs) then vrm\<lparr>Bones := (Bones vrm)(b := boneOf vs)\<rparr>
             else vrm)) \<and>
   (\<forall>msg key v rest f vrm.
      Arguments msg = OscString key # OscFloat32 v # rest \<longrightarrow>
      findField vrmFaceBlendShapes_fields key = Some f \<longrightarrow>
      handleBlendVal msg vrm =
        Inr (case v of
               Finite r \<Rightarrow>
                 vrm\<lparr>BlendShapes := (BlendShapes vrm)\<lparr>FaceBlendShapes :=
                   (FaceBlendShapes (BlendShapes vrm))(f := Finite (max 0 (min 1 r)))\<rparr>\<rparr>
             | PosInf \<Rightarrow>
                 vrm\<lparr>BlendShapes := (BlendShapes vrm)\<lparr>FaceBlendShapes :=
                   (FaceBlendShapes (BlendShapes vrm))(f := Finite 1)\<rparr>\<rparr>
             | NegInf \<Rightarrow>
                 vrm\<lparr>BlendShapes := (BlendShapes vrm)\<lparr>FaceBlendShapes :=
                   (FaceBlendShapes (BlendShapes vrm))(f := Finite 0)\<rparr>\<rparr>
             | NaN \<Rightarrow> vrm))"
proof (intro conjI allI impI)
  fix msg vrm vrm' b
  assume h: "handleBonePos msg vrm = Inr vrm'"
    and "\<forall>rawKey rest. Arguments msg = OscString rawKey # rest \<longrightarrow> isASCII rawKey"
    and o: "\<forall>key. parseKey msg = Inr key \<longrightarrow> findField vrmBones_fields key \<noteq> Some b"
  from handleBonePos_cases [OF h] o show "Bones vrm' b = Bones vrm b"
    by auto
next
  fix msg vrm vrm'
  assume h: "handleBonePos msg vrm = Inr vrm'"
  from handleBonePos_cases [OF h] show "BlendShapes vrm' = BlendShapes vrm"
    by auto
next
  fix msg :: osc_Message and vrm vrm' f
  assume h: "handleBlendVal msg vrm = Inr vrm'"
    and o: "\<forall>key rest. Arguments msg = OscString key # rest \<longrightarrow>
         findField vrmFaceBlendShapes_fields key \<noteq> Some f"
  from handleBlendVal_cases [OF h] o show "faceOf vrm' f = faceOf vrm f"
    by (auto simp: faceOf_def)
next
  fix msg vrm vrm'
  assume h: "handleBlendVal msg vrm = Inr vrm'"
  from handleBlendVal_cases [OF h] show "Bones vrm' = Bones vrm"
    by auto
next
  fix msg vrm vrm'
  assume h: "handleBlendVal msg vrm = Inr vrm'"
  from handleBlendVal_cases [OF h]
  show "DynamicBlendShapes (BlendShapes vrm') = DynamicBlendShapes (BlendShapes vrm)"
    by auto
next
  fix msg :: osc_Message and rawKey key vs b vrm
  assume "Arguments msg = OscString rawKey # map OscFloat32 vs" "7 \<le> length vs"
    "camelToSnake rawKey = Inr key" "findField vrmBones_fields key = Some b"
  then show "handleBonePos msg vrm =
        Inr (if list_all isFinite (take 7 vs) then vrm\<lparr>Bones := (Bones vrm)(b := boneOf vs)\<rparr>
             else vrm)"
    using handleBonePos_floats [of msg rawKey vs key vrm] by simp
next
  fix msg :: osc_Message and key v rest f vrm
  assume "Arguments msg = OscString key # OscFloat32 v # rest"
    "findField vrmFaceBlendShapes_fields key = Some f"
  then show "handleBlendVal msg vrm =
        Inr (case v of
               Finite r \<Rightarrow>
                 vrm\<lparr>BlendShapes := (BlendShapes vrm)\<lparr>FaceBlendShapes :=
                   (FaceBlendShapes (BlendShapes vrm))(f := Finite (max 0 (min 1 r)))\<rparr>\<rparr>
             | PosInf \<Rightarrow>
                 vrm\<lparr>BlendShapes := (BlendShapes vrm)\<lparr>FaceBlendShapes :=
                   (FaceBlendShapes (BlendShapes vrm))(f := Finite 1)\<rparr>\<rparr>
             | NegInf \<Rightarrow>
                 vrm\<lparr>BlendShapes := (BlendShapes vrm)\<lparr>FaceBlendShapes :=
                   (FaceBlendShapes (BlendShapes vrm))(f := Finite 0)\<rparr>\<rparr>
             | NaN \<Rightarrow> vrm)"
    by (rule handleBlendVal_value)
qed

theorem delta_merges_one_key_witness:
  "handleBonePos sampleBoneMsg samplePose =
     Inr (samplePose\<lparr>Bones := (Bones samplePose)(LeftUpperLeg := sampleBone)\<rparr>) \<and>
   Bones (samplePose\<lparr>Bones := (Bones samplePose)(LeftUpperLeg := sampleBone)\<rparr>) LeftUpperLeg =
     sampleBone \<and>
   Bones (samplePose\<lparr>Bones := (Bones samplePose)(LeftUpperLeg := sampleBone)\<rparr>) Hips =
     Bones samplePose Hips \<and>
   Bones samplePose Hips = sampleBone \<and> Bones samplePose LeftUpperLeg = zero_vrmBone \<and>
   handleBlendVal
     \<lparr>Address = ''/VMC/Ext/Blend/Val'',
      Arguments = [OscString ''JawOpen'', OscFloat32 (Finite (3 / 2))]\<rparr> samplePose =
     Inr (samplePose\<lparr>BlendShapes := (BlendShapes samplePose)\<lparr>FaceBlendShapes :=
            (FaceBlendShapes (BlendShapes samplePose))(JawOpen := Finite 1)\<rparr>\<rparr>) \<and>
   faceOf (samplePose\<lparr>BlendShapes := (BlendShapes samplePose)\<lparr>FaceBlendShapes :=
            (FaceBlendShapes (BlendShapes samplePose))(JawOpen := Finite 1)\<rparr>\<rparr>) EyeBlinkLeft =
     faceOf samplePose EyeBlinkLeft \<and>
   faceOf samplePose EyeBlinkLeft = Finite (21 / 50) \<and> faceOf samplePose JawOpen = Finite 0 \<and>
   BlendShapes (samplePose\<lparr>Bones := (Bones samplePose)(LeftUpperLeg := sampleBone)\<rparr>) =
     BlendShapes samplePose \<and>
   Bones (samplePose\<lparr>BlendShapes := (BlendShapes samplePose)\<lparr>FaceBlendShapes :=
            (FaceBlendShapes (BlendShapes samplePose))(JawOpen := Finite 1)\<rparr>\<rparr>) =
     Bones samplePose"
proof -
  let ?vs = "[Finite 1, Finite 2, Finite 3, Finite 4, Finite 5, Finite 6, Finite 7]"
  let ?pose1 = "samplePose\<lparr>Bones := (Bones samplePose)(LeftUpperLeg := sampleBone)\<rparr>"
  let ?blend = "\<lparr>Address = ''/VMC/Ext/Blend/Val'',
      Arguments = [OscString ''JawOpen'', OscFloat32 (Finite (3 / 2))]\<rparr>"
  let ?pose2 = "samplePose\<lparr>BlendShapes := (BlendShapes samplePose)\<lparr>FaceBlendShapes :=
            (FaceBlendShapes (BlendShapes samplePose))(JawOpen := Finite 1)\<rparr>\<rparr>"
  have a: "Arguments sampleBoneMsg = OscString ''LeftUpperLeg'' # map OscFloat32 ?vs"
    by (simp add: sampleBoneMsg_def)
  have b: "boneOf ?vs = sampleBone"
    by (simp add: boneOf_def sampleBone_def)
  have fin: "list_all isFinite (take 7 ?vs)"
    by (simp add: isFinite_def)
  have 1: "handleBonePos sampleBoneMsg samplePose = Inr ?pose1"
    using delta_merges_one_key [THEN conjunct2, THEN conjunct2, THEN conjunct2, THEN conjunct2,
        THEN conjunct1, rule_format, OF a _ sample_keys(6) sample_keys(1) sample_keys(2),
        of samplePose] b fin
    by simp
  have pk: "parseKey sampleBoneMsg = Inr ''left_upper_leg''"
    using a sample_keys(1) by (simp add: parseKey_def)
  have 2: "Bones ?pose1 Hips = Bones samplePose Hips"
  proof (rule delta_merges_one_key [THEN conjunct1, rule_format, OF 1])
    fix rawKey rest
    assume "Arguments sampleBoneMsg = OscString rawKey # rest"
    then show "isASCII rawKey" using a sample_keys(6) by simp
  next
    fix key
    assume "parseKey sampleBoneMsg = Inr key"
    then show "findField vrmBones_fields key \<noteq> Some Hips"
      using pk sample_keys(2) by simp
  qed
  have 3: "handleBlendVal ?blend samplePose = Inr ?pose2"
    using delta_merges_one_key [THEN conjunct2, THEN conjunct2, THEN conjunct2, THEN conjunct2,
        THEN conjunct2, rule_format, OF _ sample_keys(5),
        of ?blend "Finite (3 / 2)" "[]" samplePose]
    by simp
  have 4: "faceOf ?pose2 EyeBlinkLeft = faceOf samplePose EyeBlinkLeft"
  proof (rule delta_merges_one_key [THEN conjunct2, THEN conjunct2, THEN conjunct1, rule_format,
        OF 3])
    fix key rest
    assume "Arguments ?blend = OscString key # rest"
    then have "key = ''JawOpen''" by simp
    then show "findField vrmFaceBlendShapes_fields key \<noteq> Some EyeBlinkLeft"
      using sample_keys(5) by simp
  qed
  have 5: "Bones ?pose1 LeftUpperLeg = sampleBone" by simp
  have 6: "Bones samplePose Hips = sampleBone" "Bones samplePose LeftUpperLeg = zero_vrmBone"
    "faceOf samplePose EyeBlinkLeft = Finite (21 / 50)" "faceOf samplePose JawOpen = Finite 0"
    by (simp_all add: samplePose_def zero_vrmType_def faceOf_def)
  have 7: "BlendShapes ?pose1 = BlendShapes samplePose"
    by (rule delta_merges_one_key [THEN conjunct2, THEN conjunct1, rule_format, OF 1])
  have 8: "Bones ?pose2 = Bones samplePose"
    by (rule delta_merges_one_key [THEN conjunct2, THEN conjunct2, THEN conjunct2, THEN conjunct1,
          rule_format, OF 3, THEN conjunct1])
  show ?thesis
    using 1 2 3 4 5 6 7 8 by blast
qed

text \<open>
  C8, the claim as it stands, fails on a coordinate that is not finite: the bone message
  \<open>Hips\<close> with NaN as its first coordinate names the bone \<open>Hips\<close>, and the handler returns
  with the pose as it was; the bone of the message is not merged.
\<close>

theorem nan_bone_not_merged:
  "parseKey nanBoneMsg = Inr ''hips'' \<and>
   findField vrmBones_fields ''hips'' = Some Hips \<and>
   handleBonePos nanBoneMsg samplePose = Inr samplePose \<and>
   Bones samplePose Hips = sampleBone \<and>
   sampleBone \<noteq> boneOf [NaN, Finite 0, Finite 0, Finite 0, Finite 0, Finite 0, Finite 1]"
proof -
  let ?vs = "[NaN, Finite 0, Finite 0, Finite 0, Finite 0, Finite 0, Finite 1]"
  have a: "Arguments nanBoneMsg = OscString ''Hips'' # map OscFloat32 ?vs"
    by (simp add: nanBoneMsg_def)
  have pk: "parseKey nanBoneMsg = Inr ''hips''"
    using a sample_keys(3) by (simp add: parseKey_def)
  have h: "handleBonePos nanBoneMsg samplePose = Inr samplePose"
    using handleBonePos_floats [OF a _ sample_keys(3), of samplePose]
    by (simp add: isFinite_def)
  have "Bones samplePose Hips = sampleBone"
    by (simp add: samplePose_def)
  moreover have "sampleBone \<noteq> boneOf ?vs"
    by (simp add: sampleBone_def boneOf_def)
  ultimately show ?thesis
    using pk h sample_keys(4) by simp
qed



section \<open>Properties of the WebSocket pool\<close>

text \<open>
  C6. The claim fails in the code when a subscription is removed while an update is on its
  way. With the subscribers \<open>A\<close> and \<open>B\<close> registered, \<open>send\<close> returns as soon as \<open>start\<close> has
  taken the value. When \<open>B\<close> is removed after that and before \<open>range\<close> reaches it, \<open>B\<close>,
  registered at the time of the call, receives nothing; when \<open>B\<close> is removed after \<open>range\<close>
  has produced it and before the send on its channel is met, \<open>start\<close> panics with a send on
  a closed channel. Left alone, the same update reaches \<open>A\<close> and \<open>B\<close> once each, and an
  update after the removal of \<open>B\<close> reaches \<open>A\<close> alone and returns.
\<close>

theorem remove_during_broadcast:
  "outcome (run [Add ''A'' False, Add ''B'' False, Send sampleCamera, NextClient, Deliver,
                 Remove ''B'', NextClient] newPool) =
     Inr ([[sampleCamera], []], Waiting) \<and>
   outcome (run [Add ''A'' False, Add ''B'' False, Send sampleCamera, NextClient, Deliver,
                 NextClient, Remove ''B'', Deliver] newPool) =
     Inl SendOnClosedChannelPanic \<and>
   isPanic SendOnClosedChannelPanic \<and>
   outcome (run [Add ''A'' False, Add ''B'' False, Send sampleCamera, NextClient, Deliver,
                 NextClient, Deliver, NextClient] newPool) =
     Inr ([[sampleCamera], [sampleCamera]], Waiting) \<and>
   outcome (run [Add ''A'' False, Add ''B'' False, Remove ''B'', Send sampleCamera, NextClient,
                 Deliver, NextClient] newPool) =
     Inr ([[sampleCamera], []], Waiting)"
  by code_simp

section \<open>Properties of the router\<close>

text \<open>
  C5. When \<open>B\<close> is registered and a receiver is active, the handler of the switch returns,
  the active name is \<open>B\<close>, the active receiver is the one registered as \<open>B\<close>, and the calls
  it made are \<open>Stop\<close> of the old receiver followed by \<open>Start\<close> of the new one, each once.
\<close>

theorem receiver_switch:
  assumes "receiverMap B = Some rb" "activeReceiver rt = Some ra"
  shows "\<exists>rt'. receiverUpdate receiverMap (Inr B) rt = Inr rt' \<and>
           activeName rt' = B \<and> activeReceiver rt' = Some rb \<and>
           receiver_calls rt' = receiver_calls rt @ [StopCall ra, StartCall rb] \<and>
           count_list (drop (length (receiver_calls rt)) (receiver_calls rt')) (StopCall ra) = 1 \<and>
           count_list (drop (length (receiver_calls rt)) (receiver_calls rt')) (StartCall rb) = 1"
  using assms by (simp add: receiverUpdate_def activeName_def Stop_def Start_def)

theorem receiver_switch_witness:
  "[''A'' \<mapsto> 1, ''B'' \<mapsto> 2] ''B'' = Some (2::nat) \<and>
   activeReceiver (New [''A'' \<mapsto> 1, ''B'' \<mapsto> 2] ''A'') = Some 1 \<and>
   (\<exists>rt'. receiverUpdate [''A'' \<mapsto> 1, ''B'' \<mapsto> 2] (Inr ''B'')
             (New [''A'' \<mapsto> 1, ''B'' \<mapsto> 2] ''A'') = Inr rt' \<and>
      activeName rt' = ''B'' \<and> receiver_calls rt' = [StopCall 1, StartCall 2])"
proof -
  have a: "[''A'' \<mapsto> 1, ''B'' \<mapsto> 2] ''B'' = Some (2::nat)" by simp
  have b: "activeReceiver (New [''A'' \<mapsto> 1, ''B'' \<mapsto> 2] ''A'') = Some 1"
    by (simp add: New_def)
  have c: "receiver_calls (New [''A'' \<mapsto> 1, ''B'' \<mapsto> 2] ''A'') = []"
    by (simp add: New_def)
  from receiver_switch [of "[''A'' \<mapsto> 1, ''B'' \<mapsto> 2]" "''B''" 2
      "New [''A'' \<mapsto> 1, ''B'' \<mapsto> 2] ''A''" 1, OF a b]
  show ?thesis
    using a b c by fastforce
qed

lemma roundtrip_cameraType:
  "marshal_cameraType c = Inr j \<Longrightarrow> unmarshal_cameraType j old = (c, None)"
  by (auto simp: marshal_cameraType_def unmarshal_cameraType_def marshal_object_Cons
      marshal_object_Nil unmarshal_struct_def findField_hit struct_field_def
      roundtrip_objPosition)

lemma unmarshal_members_get:
  fixes flds :: "(string \<times> (json \<Rightarrow> 's \<Rightarrow> 's \<times> error option)) list"
  assumes dist: "distinct (map (foldName \<circ> fst) flds)"
    and mem: "(name, struct_field get put dec) \<in> set flds"
    and gp: "\<And>a s. get (put a s) = a"
    and other: "\<And>n d v s. (n, d) \<in> set flds \<Longrightarrow> n \<noteq> name \<Longrightarrow> get (fst (d v s)) = get s"
  shows "get (fst (unmarshal_members flds (\<lambda>f. f) kvs s)) =
     foldl (\<lambda>a v. fst (dec v a)) (get s) (carried name kvs)"
proof (induction kvs arbitrary: s)
  case Nil
  then show ?case by (simp add: carried_def)
next
  case (Cons kv kvs)
  obtain k v where kv: "kv = (k, v)" by (cases kv)
  show ?case
  proof (cases "findField flds k")
    case None
    have "foldName k \<noteq> foldName name"
    proof
      assume "foldName k = foldName name"
      then have "findField flds k = Some (struct_field get put dec)"
        using mem findField_iff [OF dist, of k "struct_field get put dec"] by auto
      with None show False by simp
    qed
    then show ?thesis
      using None kv Cons.IH [of s] by (simp add: carried_def)
  next
    case (Some d)
    then obtain n where n: "(n, d) \<in> set flds" "foldName n = foldName k"
      using findField_iff [OF dist, of k d] by auto
    obtain s' e where d: "d v s = (s', e)" by (cases "d v s")
    have step: "get (fst (unmarshal_members flds (\<lambda>f. f) (kv # kvs) s)) =
        foldl (\<lambda>a v. fst (dec v a)) (get s') (carried name kvs)"
      using Some kv d Cons.IH [of s'] by (cases "unmarshal_members flds (\<lambda>f. f) kvs s'") simp
    show ?thesis
    proof (cases "foldName k = foldName name")
      case True
      have "inj_on (foldName \<circ> fst) (set flds)"
        using dist by (simp add: distinct_map)
      moreover have "(foldName \<circ> fst) (n, d) = (foldName \<circ> fst) (name, struct_field get put dec)"
        using n(2) True by simp
      ultimately have "(n, d) = (name, struct_field get put dec)"
        using n(1) mem by (rule inj_onD)
      then have "get s' = fst (dec v (get s))"
        using d gp by (auto simp: struct_field_def split: prod.splits)
      then show ?thesis
        using step True kv by (simp add: carried_def)
    next
      case False
      then have "n \<noteq> name" using n(2) by auto
      then have "get s' = get s"
        using other [OF n(1), of v s] d by simp
      then show ?thesis
        using step False kv by (simp add: carried_def)
    qed
  qed
qed

lemma foldl_unmarshal_float32:
  "foldl (\<lambda>a v. fst (unmarshal_float32 v a)) a vs =
     (if filter isFiniteNumber vs = [] then a
      else (case last (filter isFiniteNumber vs) of JNumber x \<Rightarrow> x | _ \<Rightarrow> a))"
proof (induction vs rule: rev_induct)
  case Nil
  then show ?case by simp
next
  case (snoc v vs)
  show ?case
  proof (cases "isFiniteNumber v")
    case True
    then obtain r where "v = JNumber (Finite r)"
      by (cases v rule: isFiniteNumber.cases) auto
    then show ?thesis
      by (simp add: unmarshal_float32_def)
  next
    case False
    then have "fst (unmarshal_float32 v b) = b" for b
      by (cases v rule: isFiniteNumber.cases) (auto simp: unmarshal_float32_def)
    then show ?thesis using False snoc by simp
  qed
qed

lemma coordinate_rule:
  "(if filter isFiniteNumber (carried name kvs) = [] then a
    else (case last (filter isFiniteNumber (carried name kvs)) of JNumber x \<Rightarrow> x | _ \<Rightarrow> a)) =
   (case carried_number name kvs of None \<Rightarrow> a | Some x \<Rightarrow> x)"
proof (cases "filter isFiniteNumber (carried name kvs) = []")
  case True
  then show ?thesis by (simp add: carried_number_def)
next
  case False
  then have "last (filter isFiniteNumber (carried name kvs)) \<in>
      set (filter isFiniteNumber (carried name kvs))"
    by (rule last_in_set)
  then have "isFiniteNumber (last (filter isFiniteNumber (carried name kvs)))" by simp
  then obtain r where "last (filter isFiniteNumber (carried name kvs)) = JNumber (Finite r)"
    by (cases "last (filter isFiniteNumber (carried name kvs))" rule: isFiniteNumber.cases) auto
  then show ?thesis using False by (simp add: carried_number_def)
qed

lemma objPosition_names:
  "distinct (map (foldName \<circ> fst)
     [(''x'', struct_field pos_x (\<lambda>a p. p\<lparr>pos_x := a\<rparr>) unmarshal_float32),
      (''y'', struct_field pos_y (\<lambda>a p. p\<lparr>pos_y := a\<rparr>) unmarshal_float32),
      (''z'', struct_field pos_z (\<lambda>a p. p\<lparr>pos_z := a\<rparr>) unmarshal_float32)])"
proof -
  have "distinct (map foldName [''x'', ''y'', ''z''])" by code_simp
  then show ?thesis by simp
qed

lemma cameraType_names:
  "distinct (map (foldName \<circ> fst)
     [(''position'', struct_field camPosition (\<lambda>a c. c\<lparr>camPosition := a\<rparr>) unmarshal_objPosition),
      (''target'', struct_field camTarget (\<lambda>a c. c\<lparr>camTarget := a\<rparr>) unmarshal_objPosition)])"
proof -
  have "distinct (map foldName [''position'', ''target''])" by code_simp
  then show ?thesis by simp
qed

lemma objPosition_coordinates:
  "pos_x (fst (unmarshal_objPosition (JObject kvs) p)) =
     (case carried_number ''x'' kvs of None \<Rightarrow> pos_x p | Some x \<Rightarrow> x)"
  "pos_y (fst (unmarshal_objPosition (JObject kvs) p)) =
     (case carried_number ''y'' kvs of None \<Rightarrow> pos_y p | Some x \<Rightarrow> x)"
  "pos_z (fst (unmarshal_objPosition (JObject kvs) p)) =
     (case carried_number ''z'' kvs of None \<Rightarrow> pos_z p | Some x \<Rightarrow> x)"
proof -
  note g = unmarshal_members_get [OF objPosition_names, where kvs = kvs and s = p]
  have "pos_x (fst (unmarshal_objPosition (JObject kvs) p)) =
      foldl (\<lambda>a v. fst (unmarshal_float32 v a)) (pos_x p) (carried ''x'' kvs)"
    unfolding unmarshal_objPosition_def unmarshal_struct_def json.case
    by (rule g) (auto simp: struct_field_def split: prod.splits)
  then show "pos_x (fst (unmarshal_objPosition (JObject kvs) p)) =
     (case carried_number ''x'' kvs of None \<Rightarrow> pos_x p | Some x \<Rightarrow> x)"
    by (simp add: foldl_unmarshal_float32 coordinate_rule)
  have "pos_y (fst (unmarshal_objPosition (JObject kvs) p)) =
      foldl (\<lambda>a v. fst (unmarshal_float32 v a)) (pos_y p) (carried ''y'' kvs)"
    unfolding unmarshal_objPosition_def unmarshal_struct_def json.case
    by (rule g) (auto simp: struct_field_def split: prod.splits)
  then show "pos_y (fst (unmarshal_objPosition (JObject kvs) p)) =
     (case carried_number ''y'' kvs of None \<Rightarrow> pos_y p | Some x \<Rightarrow> x)"
    by (simp add: foldl_unmarshal_float32 coordinate_rule)
  have "pos_z (fst (unmarshal_objPosition (JObject kvs) p)) =
      foldl (\<lambda>a v. fst (unmarshal_float32 v a)) (pos_z p) (carried ''z'' kvs)"
    unfolding unmarshal_objPosition_def unmarshal_struct_def json.case
    by (rule g) (auto simp: struct_field_def split: prod.splits)
  then show "pos_z (fst (unmarshal_objPosition (JObject kvs) p)) =
     (case carried_number ''z'' kvs of None \<Rightarrow> pos_z p | Some x \<Rightarrow> x)"
    by (simp add: foldl_unmarshal_float32 coordinate_rule)
qed

lemma cameraType_parts:
  "camPosition (fst (unmarshal_cameraType (JObject kvs) c)) =
     foldl (\<lambda>p v. fst (unmarshal_objPosition v p)) (camPosition c) (carried ''position'' kvs)"
  "camTarget (fst (unmarshal_cameraType (JObject kvs) c)) =
     foldl (\<lambda>p v. fst (unmarshal_objPosition v p)) (camTarget c) (carried ''target'' kvs)"
proof -
  note g = unmarshal_members_get [OF cameraType_names, where kvs = kvs and s = c]
  show "camPosition (fst (unmarshal_cameraType (JObject kvs) c)) =
     foldl (\<lambda>p v. fst (unmarshal_objPosition v p)) (camPosition c) (carried ''position'' kvs)"
    unfolding unmarshal_cameraType_def unmarshal_struct_def json.case
    by (rule g) (auto simp: struct_field_def split: prod.splits)
  show "camTarget (fst (unmarshal_cameraType (JObject kvs) c)) =
     foldl (\<lambda>p v. fst (unmarshal_objPosition v p)) (camTarget c) (carried ''target'' kvs)"
    unfolding unmarshal_cameraType_def unmarshal_struct_def json.case
    by (rule g) (auto simp: struct_field_def split: prod.splits)
qed

lemma not_object_keeps:
  "\<forall>kvs. j \<noteq> JObject kvs \<Longrightarrow> fst (unmarshal_objPosition j p) = p"
  "\<forall>kvs. j \<noteq> JObject kvs \<Longrightarrow> fst (unmarshal_cameraType j c) = c"
  by (cases j; simp add: unmarshal_objPosition_def unmarshal_cameraType_def unmarshal_struct_def)+

lemma whole_camera:
  assumes "carried ''position'' kvs = ps @ [JObject pk]" "carried ''target'' kvs = ts @ [JObject tk]"
    and "carried_number ''x'' pk = Some x" "carried_number ''y'' pk = Some y"
      "carried_number ''z'' pk = Some z"
    and "carried_number ''x'' tk = Some x'" "carried_number ''y'' tk = Some y'"
      "carried_number ''z'' tk = Some z'"
  shows "fst (unmarshal_cameraType (JObject kvs) old) =
     \<lparr>camPosition = \<lparr>pos_x = x, pos_y = y, pos_z = z\<rparr>,
      camTarget = \<lparr>pos_x = x', pos_y = y', pos_z = z'\<rparr>\<rparr>"
proof -
  have p: "camPosition (fst (unmarshal_cameraType (JObject kvs) old)) =
      \<lparr>pos_x = x, pos_y = y, pos_z = z\<rparr>"
    by (rule objPosition.equality) (simp_all add: cameraType_parts assms objPosition_coordinates)
  have t: "camTarget (fst (unmarshal_cameraType (JObject kvs) old)) =
      \<lparr>pos_x = x', pos_y = y', pos_z = z'\<rparr>"
    by (rule objPosition.equality) (simp_all add: cameraType_parts assms objPosition_coordinates)
  show ?thesis
    by (rule cameraType.equality) (simp_all add: p t)
qed

lemma unmarshal_members_None:
  fixes flds :: "(string \<times> (json \<Rightarrow> 's \<Rightarrow> 's \<times> error option)) list"
  assumes dist: "distinct (map (foldName \<circ> fst) flds)"
    and ok: "\<And>n d v s. (n, d) \<in> set flds \<Longrightarrow> (snd (d v s) = None) = ok v"
  shows "(snd (unmarshal_members flds (\<lambda>f. f) kvs s) = None) =
     list_all ok (map snd (filter (\<lambda>(k, v). foldName k \<in> set (map (foldName \<circ> fst) flds)) kvs))"
proof (induction kvs arbitrary: s)
  case Nil
  then show ?case by simp
next
  case (Cons kv kvs)
  obtain k v where kv: "kv = (k, v)" by (cases kv)
  show ?case
  proof (cases "findField flds k")
    case None
    have "foldName k \<notin> set (map (foldName \<circ> fst) flds)"
    proof
      assume "foldName k \<in> set (map (foldName \<circ> fst) flds)"
      then obtain n d where "(n, d) \<in> set flds" "foldName n = foldName k" by auto
      then have "findField flds k = Some d"
        using findField_iff [OF dist, of k d] by blast
      with None show False by simp
    qed
    then show ?thesis
      using None kv Cons.IH [of s] by simp
  next
    case (Some d)
    then obtain n where n: "(n, d) \<in> set flds" "foldName n = foldName k"
      using findField_iff [OF dist, of k d] by auto
    then have inn: "foldName k \<in> set (map (foldName \<circ> fst) flds)"
      by force
    obtain s' e where d: "d v s = (s', e)" by (cases "d v s")
    have e: "(e = None) = ok v"
      using ok [OF n(1), of v s] d by simp
    obtain s'' e' where r: "unmarshal_members flds (\<lambda>f. f) kvs s' = (s'', e')"
      by (cases "unmarshal_members flds (\<lambda>f. f) kvs s'")
    have "(snd (unmarshal_members flds (\<lambda>f. f) (kv # kvs) s) = None) = (e = None \<and> e' = None)"
      using Some kv d r by (cases e) simp_all
    also have "\<dots> = (ok v \<and>
        list_all ok (map snd (filter (\<lambda>(k, v). foldName k \<in> set (map (foldName \<circ> fst) flds)) kvs)))"
      using e Cons.IH [of s'] r by simp
    finally show ?thesis
      using inn kv by simp
  qed
qed

lemma list_all_carried:
  "list_all ok (map snd (filter (\<lambda>(k, v). foldName k \<in> set names) kvs)) =
     (\<forall>n \<in> set names. list_all ok (map snd (filter (\<lambda>(k, v). foldName k = n) kvs)))"
  by (induction kvs) auto

lemma unmarshal_float32_None: "(snd (unmarshal_float32 v a) = None) = decodes_float32 v"
  by (cases v rule: isFiniteNumber.cases)
    (simp_all add: unmarshal_float32_def decodes_float32_def)

lemma unmarshal_members_carried:
  fixes flds :: "(string \<times> (json \<Rightarrow> 's \<Rightarrow> 's \<times> error option)) list"
  assumes dist: "distinct (map (foldName \<circ> fst) flds)"
    and ok: "\<And>n d v s. (n, d) \<in> set flds \<Longrightarrow> (snd (d v s) = None) = ok v"
    and names: "map foldName names = map (foldName \<circ> fst) flds"
  shows "(snd (unmarshal_members flds (\<lambda>f. f) kvs s) = None) =
     list_all ok (concat (map (\<lambda>name. carried name kvs) names))"
proof -
  have "list_all ok (concat (map (\<lambda>name. carried name kvs) names)) =
      (\<forall>n \<in> set (map foldName names).
         list_all ok (map snd (filter (\<lambda>(k, v). foldName k = n) kvs)))"
    by (induction names) (auto simp: carried_def)
  moreover have "(snd (unmarshal_members flds (\<lambda>f. f) kvs s) = None) =
      list_all ok (map snd (filter (\<lambda>(k, v). foldName k \<in> set (map (foldName \<circ> fst) flds)) kvs))"
    by (rule unmarshal_members_None [OF dist]) (rule ok)
  ultimately show ?thesis
    unfolding names list_all_carried by simp
qed

lemma snd_struct_field: "snd (struct_field get put dec j s) = snd (dec j (get s))"
  by (simp add: struct_field_def split: prod.splits)

lemma unmarshal_objPosition_None: "(snd (unmarshal_objPosition j p) = None) = decodes_objPosition j"
proof (cases j)
  case (JObject kvs)
  have "(snd (unmarshal_objPosition (JObject kvs) p) = None) =
      list_all decodes_float32 (concat (map (\<lambda>name. carried name kvs) [''x'', ''y'', ''z'']))"
    unfolding unmarshal_objPosition_def unmarshal_struct_def json.case
    by (rule unmarshal_members_carried [OF objPosition_names])
      (auto simp: snd_struct_field unmarshal_float32_None)
  then show ?thesis
    using JObject by (simp add: decodes_objPosition_def)
qed (simp_all add: unmarshal_objPosition_def unmarshal_struct_def decodes_objPosition_def)

lemma unmarshal_cameraType_None: "(snd (unmarshal_cameraType j c) = None) = decodes_cameraType j"
proof (cases j)
  case (JObject kvs)
  have "(snd (unmarshal_cameraType (JObject kvs) c) = None) =
      list_all decodes_objPosition
        (concat (map (\<lambda>name. carried name kvs) [''position'', ''target'']))"
    unfolding unmarshal_cameraType_def unmarshal_struct_def json.case
    by (rule unmarshal_members_carried [OF cameraType_names])
      (auto simp: snd_struct_field unmarshal_objPosition_None)
  then show ?thesis
    using JObject by (simp add: decodes_cameraType_def)
qed (simp_all add: unmarshal_cameraType_def unmarshal_struct_def decodes_cameraType_def)

lemma writeCamera_frames:
  assumes "list_all decodes_cameraType js" "tail = [] \<or> (\<exists>rest. tail = ReadFailure # rest)"
  shows "writeCamera (map JsonFrame js @ tail) st =
     \<lparr>Camera = last (Camera st # decoded_cameras js (Camera st)),
      published = published st @ decoded_cameras js (Camera st)\<rparr>"
  using assms
proof (induction js arbitrary: st)
  case Nil
  then show ?case by auto
next
  case (Cons j js)
  obtain c where ok: "unmarshal_cameraType j (Camera st) = (c, None)"
    using Cons.prems(1) unmarshal_cameraType_None [of j "Camera st"]
    by (cases "unmarshal_cameraType j (Camera st)") simp
  let ?st = "st\<lparr>Camera := c, published := published st @ [c]\<rparr>"
  have "writeCamera (map JsonFrame (j # js) @ tail) st = writeCamera (map JsonFrame js @ tail) ?st"
    using ok by simp
  also have "\<dots> = \<lparr>Camera = last (Camera ?st # decoded_cameras js (Camera ?st)),
      published = published ?st @ decoded_cameras js (Camera ?st)\<rparr>"
    using Cons.prems ok by (intro Cons.IH) simp_all
  finally show ?case using ok by simp
qed

lemma writeCamera_failing_frame:
  assumes "list_all decodes_cameraType js" "\<not> decodes_cameraType j"
  shows "writeCamera (map JsonFrame js @ JsonFrame j # rest) st =
     \<lparr>Camera = fst (unmarshal_cameraType j (last (Camera st # decoded_cameras js (Camera st)))),
      published = published st @ decoded_cameras js (Camera st)\<rparr>"
  using assms
proof (induction js arbitrary: st)
  case Nil
  then show ?case
    using unmarshal_cameraType_None [of j "Camera st"]
    by (cases "unmarshal_cameraType j (Camera st)") auto
next
  case (Cons i js)
  obtain c where ok: "unmarshal_cameraType i (Camera st) = (c, None)"
    using Cons.prems(1) unmarshal_cameraType_None [of i "Camera st"]
    by (cases "unmarshal_cameraType i (Camera st)") simp
  let ?st = "st\<lparr>Camera := c, published := published st @ [c]\<rparr>"
  have "writeCamera (map JsonFrame (i # js) @ JsonFrame j # rest) st =
      writeCamera (map JsonFrame js @ JsonFrame j # rest) ?st"
    using ok by simp
  also have "\<dots> =
      \<lparr>Camera = fst (unmarshal_cameraType j (last (Camera ?st # decoded_cameras js (Camera ?st)))),
       published = published ?st @ decoded_cameras js (Camera ?st)\<rparr>"
    using Cons.prems ok by (intro Cons.IH) simp_all
  finally show ?case using ok by simp
qed

text \<open>
  C4, the claim as it stands, fails: a frame that carries only \<open>position.x\<close> leaves
  \<open>position.y\<close>, \<open>position.z\<close> and the target of the previous camera in the canonical one,
  and that merged camera is what is published.
\<close>

theorem camera_merge_counterexample:
  "writeCamera [JsonFrame (JObject [(''position'', JObject [(''x'', JNumber (Finite 9))])])]
     \<lparr>Camera = sampleCamera, published = []\<rparr> =
   \<lparr>Camera =
      \<lparr>camPosition = \<lparr>pos_x = Finite 9, pos_y = Finite 2, pos_z = Finite 3\<rparr>,
       camTarget = \<lparr>pos_x = Finite 4, pos_y = Finite 5, pos_z = Finite 6\<rparr>\<rparr>,
    published =
      [\<lparr>camPosition = \<lparr>pos_x = Finite 9, pos_y = Finite 2, pos_z = Finite 3\<rparr>,
        camTarget = \<lparr>pos_x = Finite 4, pos_y = Finite 5, pos_z = Finite 6\<rparr>\<rparr>]\<rparr> \<and>
   pos_y (camPosition sampleCamera) = Finite 2 \<and>
   camTarget sampleCamera = \<lparr>pos_x = Finite 4, pos_y = Finite 5, pos_z = Finite 6\<rparr>"
  by code_simp

text \<open>
  C4 (as amended). Every frame is decoded into the canonical camera in place: the position
  and the target each take, one after the other, the values that the frame carries under
  their name; a coordinate becomes the last finite number that the object carries under its
  name and keeps its value when there is none; a value that is not an object changes
  nothing. So a frame that carries all six coordinates, in whatever order, replaces the
  canonical camera, and what \<open>json.Marshal\<close> writes of a camera reads back as that camera. A
  frame decodes without an error exactly when it is one a camera takes. The handler
  publishes the canonical camera after each such frame and reads on; at a failed read it
  returns, and at the first other frame it returns without publishing, with the canonical
  camera as far as the frame changed it.
\<close>

theorem camera_update_in_place:
  "(\<forall>kvs old.
      camPosition (fst (unmarshal_cameraType (JObject kvs) old)) =
        foldl (\<lambda>p v. fst (unmarshal_objPosition v p)) (camPosition old) (carried ''position'' kvs) \<and>
      camTarget (fst (unmarshal_cameraType (JObject kvs) old)) =
        foldl (\<lambda>p v. fst (unmarshal_objPosition v p)) (camTarget old) (carried ''target'' kvs)) \<and>
   (\<forall>kvs p.
      pos_x (fst (unmarshal_objPosition (JObject kvs) p)) =
        (case carried_number ''x'' kvs of None \<Rightarrow> pos_x p | Some x \<Rightarrow> x) \<and>
      pos_y (fst (unmarshal_objPosition (JObject kvs) p)) =
        (case carried_number ''y'' kvs of None \<Rightarrow> pos_y p | Some y \<Rightarrow> y) \<and>
      pos_z (fst (unmarshal_objPosition (JObject kvs) p)) =
        (case carried_number ''z'' kvs of None \<Rightarrow> pos_z p | Some z \<Rightarrow> z)) \<and>
   (\<forall>j p c. (\<forall>kvs. j \<noteq> JObject kvs) \<longrightarrow>
      fst (unmarshal_objPosition j p) = p \<and> fst (unmarshal_cameraType j c) = c) \<and>
   (\<forall>kvs ps pk ts tk x y z x' y' z' old.
      carried ''position'' kvs = ps @ [JObject pk] \<longrightarrow> carried ''target'' kvs = ts @ [JObject tk] \<longrightarrow>
      carried_number ''x'' pk = Some x \<longrightarrow> carried_number ''y'' pk = Some y \<longrightarrow>
      carried_number ''z'' pk = Some z \<longrightarrow>
      carried_number ''x'' tk = Some x' \<longrightarrow> carried_number ''y'' tk = Some y' \<longrightarrow>
      carried_number ''z'' tk = Some z' \<longrightarrow>
      fst (unmarshal_cameraType (JObject kvs) old) =
        \<lparr>camPosition = \<lparr>pos_x = x, pos_y = y, pos_z = z\<rparr>,
         camTarget = \<lparr>pos_x = x', pos_y = y', pos_z = z'\<rparr>\<rparr>) \<and>
   (\<forall>c j old. marshal_cameraType c = Inr j \<longrightarrow> unmarshal_cameraType j old = (c, None)) \<and>
   (\<forall>j c. (snd (unmarshal_cameraType j c) = None) = decodes_cameraType j) \<and>
   (\<forall>js tail sceneConfig.
      list_all decodes_cameraType js \<longrightarrow> tail = [] \<or> (\<exists>rest. tail = ReadFailure # rest) \<longrightarrow>
      writeCamera (map JsonFrame js @ tail) sceneConfig =
        \<lparr>Camera = last (Camera sceneConfig # decoded_cameras js (Camera sceneConfig)),
         published = published sceneConfig @ decoded_cameras js (Camera sceneConfig)\<rparr>) \<and>
   (\<forall>js j rest sceneConfig.
      list_all decodes_cameraType js \<longrightarrow> \<not> decodes_cameraType j \<longrightarrow>
      writeCamera (map JsonFrame js @ JsonFrame j # rest) sceneConfig =
        \<lparr>Camera = fst (unmarshal_cameraType j
             (last (Camera sceneConfig # decoded_cameras js (Camera sceneConfig)))),
         published = published sceneConfig @ decoded_cameras js (Camera sceneConfig)\<rparr>)"
  using cameraType_parts objPosition_coordinates not_object_keeps whole_camera
    roundtrip_cameraType unmarshal_cameraType_None writeCamera_frames writeCamera_failing_frame
  by (intro conjI allI impI) blast+

theorem camera_update_in_place_witness:
  "list_all decodes_cameraType [JObject [(''target'', JObject [(''x'', JNumber (Finite 7))])]] \<and>
   writeCamera
     [JsonFrame (JObject [(''target'', JObject [(''x'', JNumber (Finite 7))])])]
     \<lparr>Camera = sampleCamera, published = []\<rparr> =
   \<lparr>Camera =
      \<lparr>camPosition = \<lparr>pos_x = Finite 1, pos_y = Finite 2, pos_z = Finite 3\<rparr>,
       camTarget = \<lparr>pos_x = Finite 7, pos_y = Finite 5, pos_z = Finite 6\<rparr>\<rparr>,
    published =
      [\<lparr>camPosition = \<lparr>pos_x = Finite 1, pos_y = Finite 2, pos_z = Finite 3\<rparr>,
        camTarget = \<lparr>pos_x = Finite 7, pos_y = Finite 5, pos_z = Finite 6\<rparr>\<rparr>]\<rparr> \<and>
   \<not> decodes_cameraType (JObject [(''position'', JObject [(''y'', JString ''up'')])]) \<and>
   writeCamera
     [JsonFrame (JObject [(''target'', JObject [(''x'', JNumber (Finite 7))])]),
      JsonFrame (JObject [(''position'', JObject [(''y'', JString ''up'')])]),
      JsonFrame (JObject [(''target'', JObject [(''x'', JNumber (Finite 8))])])]
     \<lparr>Camera = sampleCamera, published = []\<rparr> =
   \<lparr>Camera =
      \<lparr>camPosition = \<lparr>pos_x = Finite 1, pos_y = Finite 2, pos_z = Finite 3\<rparr>,
       camTarget = \<lparr>pos_x = Finite 7, pos_y = Finite 5, pos_z = Finite 6\<rparr>\<rparr>,
    published =
      [\<lparr>camPosition = \<lparr>pos_x = Finite 1, pos_y = Finite 2, pos_z = Finite 3\<rparr>,
        camTarget = \<lparr>pos_x = Finite 7, pos_y = Finite 5, pos_z = Finite 6\<rparr>\<rparr>]\<rparr> \<and>
   carried ''position''
     [(''target'', JObject [(''z'', JNumber (Finite 16)), (''y'', JNumber (Finite 15)),
                            (''x'', JNumber (Finite 14))]),
      (''POSITION'', JObject [(''z'', JNumber (Finite 13)), (''y'', JNumber (Finite 12)),
                              (''x'', JNumber (Finite 11))])] =
     [] @ [JObject [(''z'', JNumber (Finite 13)), (''y'', JNumber (Finite 12)),
                    (''x'', JNumber (Finite 11))]] \<and>
   fst (unmarshal_cameraType
     (JObject
       [(''target'', JObject [(''z'', JNumber (Finite 16)), (''y'', JNumber (Finite 15)),
                              (''x'', JNumber (Finite 14))]),
        (''POSITION'', JObject [(''z'', JNumber (Finite 13)), (''y'', JNumber (Finite 12)),
                                (''x'', JNumber (Finite 11))])]) sampleCamera) =
     \<lparr>camPosition = \<lparr>pos_x = Finite 11, pos_y = Finite 12, pos_z = Finite 13\<rparr>,
      camTarget = \<lparr>pos_x = Finite 14, pos_y = Finite 15, pos_z = Finite 16\<rparr>\<rparr> \<and>
   marshal_cameraType sampleCamera =
     Inr (JObject
       [(''position'', JObject [(''x'', JNumber (Finite 1)), (''y'', JNumber (Finite 2)),
                                (''z'', JNumber (Finite 3))]),
        (''target'', JObject [(''x'', JNumber (Finite 4)), (''y'', JNumber (Finite 5)),
                              (''z'', JNumber (Finite 6))])]) \<and>
   unmarshal_cameraType
     (JObject
       [(''position'', JObject [(''x'', JNumber (Finite 1)), (''y'', JNumber (Finite 2)),
                                (''z'', JNumber (Finite 3))]),
        (''target'', JObject [(''x'', JNumber (Finite 4)), (''y'', JNumber (Finite 5)),
                              (''z'', JNumber (Finite 6))])]) zero_cameraType =
     (sampleCamera, None) \<and>
   fst (unmarshal_cameraType (JArray []) sampleCamera) = sampleCamera"
proof -
  let ?t7 = "JObject [(''target'', JObject [(''x'', JNumber (Finite 7))])]"
  let ?t8 = "JObject [(''target'', JObject [(''x'', JNumber (Finite 8))])]"
  let ?bad = "JObject [(''position'', JObject [(''y'', JString ''up'')])]"
  let ?pk = "[(''z'', JNumber (Finite 13)), (''y'', JNumber (Finite 12)),
              (''x'', JNumber (Finite 11))]"
  let ?tk = "[(''z'', JNumber (Finite 16)), (''y'', JNumber (Finite 15)),
              (''x'', JNumber (Finite 14))]"
  let ?whole = "[(''target'', JObject ?tk), (''POSITION'', JObject ?pk)]"
  let ?st = "\<lparr>Camera = sampleCamera, published = []\<rparr>"
  let ?c7 = "\<lparr>camPosition = \<lparr>pos_x = Finite 1, pos_y = Finite 2, pos_z = Finite 3\<rparr>,
       camTarget = \<lparr>pos_x = Finite 7, pos_y = Finite 5, pos_z = Finite 6\<rparr>\<rparr>"
  have ok: "list_all decodes_cameraType [?t7]" by code_simp
  have bad: "\<not> decodes_cameraType ?bad" by code_simp
  have d: "decoded_cameras [?t7] sampleCamera = [?c7]" by code_simp
  have b: "fst (unmarshal_cameraType ?bad ?c7) = ?c7" by code_simp
  have 1: "writeCamera [JsonFrame ?t7] ?st = \<lparr>Camera = ?c7, published = [?c7]\<rparr>"
    using camera_update_in_place [THEN conjunct2, THEN conjunct2, THEN conjunct2, THEN conjunct2,
        THEN conjunct2, THEN conjunct2, THEN conjunct1, rule_format, OF ok, of "[]" ?st] d
    by simp
  have 2: "writeCamera [JsonFrame ?t7, JsonFrame ?bad, JsonFrame ?t8] ?st =
      \<lparr>Camera = ?c7, published = [?c7]\<rparr>"
    using camera_update_in_place [THEN conjunct2, THEN conjunct2, THEN conjunct2, THEN conjunct2,
        THEN conjunct2, THEN conjunct2, THEN conjunct2, rule_format, OF ok bad,
        of "[JsonFrame ?t8]" ?st] d b
    by simp
  have cp: "carried ''position'' ?whole = [] @ [JObject ?pk]" by code_simp
  have ct: "carried ''target'' ?whole = [] @ [JObject ?tk]" by code_simp
  have n: "carried_number ''x'' ?pk = Some (Finite 11)" "carried_number ''y'' ?pk = Some (Finite 12)"
    "carried_number ''z'' ?pk = Some (Finite 13)" "carried_number ''x'' ?tk = Some (Finite 14)"
    "carried_number ''y'' ?tk = Some (Finite 15)" "carried_number ''z'' ?tk = Some (Finite 16)"
    by code_simp+
  have 3: "fst (unmarshal_cameraType (JObject ?whole) sampleCamera) =
      \<lparr>camPosition = \<lparr>pos_x = Finite 11, pos_y = Finite 12, pos_z = Finite 13\<rparr>,
       camTarget = \<lparr>pos_x = Finite 14, pos_y = Finite 15, pos_z = Finite 16\<rparr>\<rparr>"
    by (rule camera_update_in_place [THEN conjunct2, THEN conjunct2, THEN conjunct2,
          THEN conjunct1, rule_format, OF cp ct n])
  have m: "marshal_cameraType sampleCamera =
     Inr (JObject
       [(''position'', JObject [(''x'', JNumber (Finite 1)), (''y'', JNumber (Finite 2)),
                                (''z'', JNumber (Finite 3))]),
        (''target'', JObject [(''x'', JNumber (Finite 4)), (''y'', JNumber (Finite 5)),
                              (''z'', JNumber (Finite 6))])])"
    by code_simp
  note 4 = camera_update_in_place [THEN conjunct2, THEN conjunct2, THEN conjunct2, THEN conjunct2,
        THEN conjunct1, rule_format, OF m, of zero_cameraType]
  have 5: "fst (unmarshal_cameraType (JArray []) sampleCamera) = sampleCamera"
    using camera_update_in_place [THEN conjunct2, THEN conjunct2, THEN conjunct1, rule_format,
        of "JArray []" "camPosition sampleCamera" sampleCamera]
    by simp
  show ?thesis
    using ok 1 bad 2 cp 3 m 4 5 by blast
qed

end
